theory Spec2Isabelle
  imports Main
begin

section \<open>The task lifecycle object (MonitoredScheduledTask.ts)\<close>

text \<open>
  \<^verbatim>\<open>enum TaskStatus\<close>: the five lifecycle states. The store keeps the enum's string
  value in a TEXT column, so rows carry \<open>status_value s\<close>.
\<close>

datatype TaskStatus = CREATED | IN_PROGRESS | COMPLETED | ERROR | SKIPPED

fun status_value :: "TaskStatus \<Rightarrow> string" where
  "status_value CREATED = ''created''"
| "status_value IN_PROGRESS = ''in_progress''"
| "status_value COMPLETED = ''completed''"
| "status_value ERROR = ''error''"
| "status_value SKIPPED = ''skipped''"

record TaskProgress =
  p_message :: string
  p_percentage :: "int option"

text \<open>
  The user-supplied \<^verbatim>\<open>execute()\<close> hook is arbitrary code of a subclass. What the
  scheduler can observe of it is the sequence of calls it makes to the protected methods
  of its base class, the points where it awaits (time passes, other work may run), and
  whether it finally returns or throws. A thrown value is represented by the message
  \<^verbatim>\<open>error instanceof Error ? error.message : String(error)\<close> extracts from it.
\<close>

datatype hook_step =
    Await nat
  | UpdateProgress string "int option"
  | SetSummary string
  | SetError string
  | SetStatus TaskStatus

datatype hook_outcome = Returns | Throws string

text \<open>
  The only listener the scheduler ever registers on a task, for each of the three event
  kinds, is \<^verbatim>\<open>() => this.updateTaskInDatabase(task)\<close>.
\<close>

datatype listener = UpdateTaskInDatabase

text \<open>
  \<^verbatim>\<open>Record<string, any>\<close> parameters. The values a configuration can hold are kept to
  the scalar ones; \<open>JBigInt\<close> stands for the values \<^verbatim>\<open>JSON.stringify\<close> rejects with a
  TypeError (a BigInt, a cyclic object), which an in-memory configuration may contain.
\<close>

datatype jsvalue = JNull | JBool bool | JNum int | JStr string | JBigInt int

type_synonym params = "(string \<times> jsvalue) list"

record MonitoredScheduledTask =
  taskId :: string
  taskName :: string
  startTime :: "int option"
  endTime :: "int option"
  status :: TaskStatus
  error :: "string option"
  summary :: "string option"
  currentProgress :: TaskProgress
  taskParams :: params
  on_statusChanged :: "listener list"
  on_progressUpdated :: "listener list"
  on_summaryUpdated :: "listener list"
  execute :: "hook_step list \<times> hook_outcome"

text \<open>The constructor: status \<open>created\<close>, progress message \<open>Initialized\<close>, no listeners.\<close>

definition new_task ::
  "string \<Rightarrow> string \<Rightarrow> params \<Rightarrow> hook_step list \<times> hook_outcome \<Rightarrow> MonitoredScheduledTask" where
  "new_task name tid ps hook =
     \<lparr> taskId = tid, taskName = name, startTime = None, endTime = None, status = CREATED,
       error = None, summary = None,
       currentProgress = \<lparr> p_message = ''Initialized'', p_percentage = None \<rparr>,
       taskParams = ps, on_statusChanged = [], on_progressUpdated = [],
       on_summaryUpdated = [], execute = hook \<rparr>"


text \<open>
  A thrown \<^verbatim>\<open>Error\<close>: its message and its stack text. Of the stack text only the
  first line, \<open>Name: msg\<close>, is modelled; the frames below it depend on the installation.
  \<open>SqliteError\<close> is the error class of better-sqlite3.
\<close>

datatype js_error = JsError (err_message: string) (err_stack: "string option")

definition new_Error :: "string \<Rightarrow> js_error" where
  "new_Error msg = JsError msg (Some (''Error: '' @ msg))"


definition new_RangeError :: "string \<Rightarrow> js_error" where
  "new_RangeError msg = JsError msg (Some (''RangeError: '' @ msg))"

definition new_SqliteError :: "string \<Rightarrow> js_error" where
  "new_SqliteError msg = JsError msg (Some (''SqliteError: '' @ msg))"
section \<open>Instants and their texts\<close>

text \<open>
  An instant is an ECMAScript time value: an integer number of milliseconds since
  1970-01-01T00:00:00Z. The store never sees instants, only two texts of them:
  \<^verbatim>\<open>Date.prototype.toISOString()\<close>, \<open>YYYY-MM-DDTHH:mm:ss.sssZ\<close>, which the program
  writes and binds, and SQLite's \<^verbatim>\<open>CURRENT_TIMESTAMP\<close>, \<open>YYYY-MM-DD HH:MM:SS\<close>, the
  default of both \<open>createdAt\<close> columns. Both are UTC, in the proleptic Gregorian
  calendar.
\<close>

subsection \<open>Civil date of a day number\<close>

text \<open>
  Day 0 is 1970-01-01, which is day 719528 counted from 0000-01-01. The calendar repeats
  every 400 years (146097 days); within such an era the year and then the month are
  found by walking forward.
\<close>

definition is_leap :: "int \<Rightarrow> bool" where
  "is_leap y = (y mod 4 = 0 \<and> (y mod 400 = 0 \<or> y mod 100 \<noteq> 0))"

definition year_length :: "int \<Rightarrow> int" where
  "year_length y = (if is_leap y then 366 else 365)"

function year_of_era :: "int \<Rightarrow> int \<Rightarrow> int \<times> int" where
  "year_of_era y r =
     (if r < year_length y then (y, r) else year_of_era (y + 1) (r - year_length y))"
  by pat_completeness auto
termination
  by (relation "measure (\<lambda>(y, r). nat r)") (auto simp: year_length_def split: if_splits)

declare year_of_era.simps [simp del]

definition month_length :: "bool \<Rightarrow> int \<Rightarrow> int" where
  "month_length leap m =
     (if m = 2 then (if leap then 29 else 28)
      else if m = 4 \<or> m = 6 \<or> m = 9 \<or> m = 11 then 30 else 31)"

function month_of_year :: "bool \<Rightarrow> int \<Rightarrow> int \<Rightarrow> int \<times> int" where
  "month_of_year leap m r =
     (if r < month_length leap m then (m, r + 1)
      else month_of_year leap (m + 1) (r - month_length leap m))"
  by pat_completeness auto
termination
  by (relation "measure (\<lambda>(leap, m, r). nat r)") (auto simp: month_length_def split: if_splits)

declare month_of_year.simps [simp del]

definition civil_from_days :: "int \<Rightarrow> int \<times> int \<times> int" where
  "civil_from_days z =
     (case year_of_era 0 ((z + 719528) mod 146097) of (yoe, doy) \<Rightarrow>
        case month_of_year (is_leap yoe) 1 doy of (m, d) \<Rightarrow>
          ((z + 719528) div 146097 * 400 + yoe, m, d))"

subsection \<open>Digits\<close>

definition digit :: "int \<Rightarrow> char" where
  "digit n = ''0123456789'' ! nat n"

definition pad2 :: "int \<Rightarrow> string" where
  "pad2 n = [digit (n div 10 mod 10), digit (n mod 10)]"

definition pad3 :: "int \<Rightarrow> string" where
  "pad3 n = digit (n div 100 mod 10) # pad2 (n mod 100)"

definition pad4 :: "int \<Rightarrow> string" where
  "pad4 n = pad2 (n div 100 mod 100) @ pad2 (n mod 100)"

definition pad6 :: "int \<Rightarrow> string" where
  "pad6 n = pad2 (n div 10000 mod 100) @ pad4 (n mod 10000)"

subsection \<open>The two texts\<close>

text \<open>
  \<^verbatim>\<open>toISOString\<close> writes years 0 to 9999 with four digits and any other year with a
  sign and six digits. \<^verbatim>\<open>CURRENT_TIMESTAMP\<close> is only ever taken of the present, so its
  year has four digits.
\<close>

definition iso_year :: "int \<Rightarrow> string" where
  "iso_year y =
     (if 0 \<le> y \<and> y \<le> 9999 then pad4 y
      else (if y < 0 then ''-'' else ''+'') @ pad6 \<bar>y\<bar>)"

definition time_text :: "int \<Rightarrow> string" where
  "time_text s = pad2 (s div 3600) @ '':'' @ pad2 (s div 60 mod 60) @ '':'' @ pad2 (s mod 60)"

definition toISOString :: "int \<Rightarrow> string" where
  "toISOString t =
     (case civil_from_days (t div 86400000) of (y, m, d) \<Rightarrow>
        iso_year y @ ''-'' @ pad2 m @ ''-'' @ pad2 d @ ''T'' @
        time_text (t mod 86400000 div 1000) @ ''.'' @ pad3 (t mod 1000) @ ''Z'')"

definition CURRENT_TIMESTAMP :: "int \<Rightarrow> string" where
  "CURRENT_TIMESTAMP s =
     (case civil_from_days (s div 86400) of (y, m, d) \<Rightarrow>
        pad4 y @ ''-'' @ pad2 m @ ''-'' @ pad2 d @ '' '' @ time_text (s mod 86400))"

text \<open>
  \<^verbatim>\<open>createdAt < ?\<close> with a text on both sides: the column is declared DATETIME, so its
  affinity is NUMERIC, and neither text converts to a number; SQLite then compares them
  byte by byte (collation BINARY), a proper prefix sorting first.
\<close>

fun text_less :: "string \<Rightarrow> string \<Rightarrow> bool" where
  "text_less [] [] = False"
| "text_less [] (y # ys) = True"
| "text_less (x # xs) [] = False"
| "text_less (x # xs) (y # ys) =
     (if (of_char x :: nat) < of_char y then True
      else if (of_char y :: nat) < of_char x then False
      else text_less xs ys)"

section \<open>The persistence store (DatabaseManager.ts)\<close>

text \<open>
  The two tables, as lists of rows in insertion order. A time column holds the instant
  (milliseconds since the epoch) whose \<^verbatim>\<open>toISOString()\<close> text the program wrote there;
  \<open>createdAt\<close> holds the second (since the epoch) whose \<^verbatim>\<open>CURRENT_TIMESTAMP\<close> text
  SQLite stored as the column default. A column the program binds \<^verbatim>\<open>undefined\<close> or
  \<^verbatim>\<open>null\<close> to is NULL, here \<open>None\<close>. better-sqlite3 enforces foreign keys, and
  each statement is its own transaction: a statement that fails changes nothing and
  throws a \<open>SqliteError\<close>, while the statements before it stay done. The model has the
  foreign key of \<open>tasks\<close> to \<open>taskGroups\<close> and the primary key of \<open>tasks\<close>. The id of
  a group run is a fresh \<^verbatim>\<open>crypto.randomUUID()\<close> at every insertion, so the primary key
  of \<open>taskGroups\<close> is left out, as are failures of the I/O.
\<close>

record TaskGroupRecord =
  tg_taskGroupId :: string
  tg_groupName :: string
  tg_status :: string
  tg_message :: "string option"
  tg_startTime :: int
  tg_endTime :: "int option"
  tg_stackTrace :: "string option"
  tg_createdAt :: int

record TaskRecord =
  t_taskGroupId :: string
  t_taskId :: string
  t_taskName :: string
  t_params :: params
  t_filePath :: string
  t_status :: string
  t_message :: "string option"
  t_startTime :: "int option"
  t_endTime :: "int option"
  t_summary :: "string option"
  t_percentage :: "int option"
  t_createdAt :: int

record database =
  taskGroups :: "TaskGroupRecord list"
  tasks :: "TaskRecord list"







datatype task_update =
    T_taskId string
  | T_status string
  | T_message "string option"
  | T_startTime "int option"
  | T_endTime "int option"
  | T_summary "string option"
  | T_percentage "int option"

fun set_task_field :: "task_update \<Rightarrow> TaskRecord \<Rightarrow> TaskRecord" where
  "set_task_field (T_taskId v) r = r"
| "set_task_field (T_status v) r = r\<lparr>t_status := v\<rparr>"
| "set_task_field (T_message v) r = r\<lparr>t_message := v\<rparr>"
| "set_task_field (T_startTime v) r = r\<lparr>t_startTime := v\<rparr>"
| "set_task_field (T_endTime v) r = r\<lparr>t_endTime := v\<rparr>"
| "set_task_field (T_summary v) r = r\<lparr>t_summary := v\<rparr>"
| "set_task_field (T_percentage v) r = r\<lparr>t_percentage := v\<rparr>"

fun is_T_taskId :: "task_update \<Rightarrow> bool" where
  "is_T_taskId (T_taskId v) = True"
| "is_T_taskId u = False"

definition updateTask :: "string \<Rightarrow> task_update list \<Rightarrow> database \<Rightarrow> database" where
  "updateTask tid updates d =
     (let fields = filter (\<lambda>u. \<not> is_T_taskId u) updates in
      if fields = [] then d
      else d\<lparr>tasks :=
             map (\<lambda>r. if t_taskId r = tid then fold set_task_field fields r else r)
               (tasks d)\<rparr>)"


text \<open>
  A \<^verbatim>\<open>Date\<close> holds an instant of at most 8.64e15 milliseconds either side of the
  epoch; \<^verbatim>\<open>new Date(v)\<close> of any other number is the invalid date, of which
  \<^verbatim>\<open>toISOString()\<close> throws a RangeError.
\<close>

definition valid_date_value :: "int \<Rightarrow> bool" where
  "valid_date_value v = (- 8640000000000000 \<le> v \<and> v \<le> 8640000000000000)"

text \<open>
  \<^verbatim>\<open>cleanupOldRecords(daysToKeep = 30)\<close>: the cut-off is the ISO text of
  \<open>now - daysToKeep\<close> days, and both DELETEs compare the stored \<open>createdAt\<close> text with
  it. The first DELETE removes task rows. The second one removes group rows; it fails,
  and removes none, when a task row that is left refers to one of them. The result is
  the store afterwards and the error thrown, if any.
\<close>

definition cleanupOldRecords :: "int \<Rightarrow> int \<Rightarrow> database \<Rightarrow> database \<times> js_error option" where
  "cleanupOldRecords now daysToKeep d =
     (if \<not> valid_date_value (now - daysToKeep * 24 * 60 * 60 * 1000)
      then (d, Some (new_RangeError ''Invalid time value''))
      else
        (let cutoffTime = toISOString (now - daysToKeep * 24 * 60 * 60 * 1000);
             tasksLeft =
               filter (\<lambda>r. \<not> text_less (CURRENT_TIMESTAMP (t_createdAt r)) cutoffTime) (tasks d);
             oldGroups =
               filter (\<lambda>r. text_less (CURRENT_TIMESTAMP (tg_createdAt r)) cutoffTime) (taskGroups d)
         in if list_ex (\<lambda>r. t_taskGroupId r \<in> set (map tg_taskGroupId oldGroups)) tasksLeft
            then (d\<lparr>tasks := tasksLeft\<rparr>, Some (new_SqliteError ''FOREIGN KEY constraint failed''))
            else (\<lparr> taskGroups =
                      filter (\<lambda>r. \<not> text_less (CURRENT_TIMESTAMP (tg_createdAt r)) cutoffTime)
                        (taskGroups d),
                    tasks = tasksLeft \<rparr>, None)))"


text \<open>
  \<^verbatim>\<open>getLastCompletedRun\<close>: \<^verbatim>\<open>ORDER BY endTime DESC LIMIT 1\<close> over the completed rows of
  the name. The \<open>endTime\<close> texts are compared as texts, NULL sorting below every text.
  SQL leaves open which of several rows with the greatest \<open>endTime\<close> comes first; the
  model takes the one inserted first.
\<close>

fun endTime_less :: "int option \<Rightarrow> int option \<Rightarrow> bool" where
  "endTime_less None None = False"
| "endTime_less None (Some b) = True"
| "endTime_less (Some a) None = False"
| "endTime_less (Some a) (Some b) = text_less (toISOString a) (toISOString b)"

definition getLastCompletedRun :: "database \<Rightarrow> string \<Rightarrow> TaskRecord option" where
  "getLastCompletedRun d name =
     (case filter (\<lambda>r. t_taskName r = name \<and> t_status r = ''completed'') (tasks d) of
        [] \<Rightarrow> None
      | r # rs \<Rightarrow>
          Some (fold (\<lambda>x best. if endTime_less (t_endTime best) (t_endTime x) then x else best) rs r))"

text \<open>
  \<^verbatim>\<open>markIncompleteTasksAsErrors\<close>, the startup recovery: two UPDATEs, one per table.
\<close>

definition markIncompleteTasksAsErrors :: "int \<Rightarrow> database \<Rightarrow> database" where
  "markIncompleteTasksAsErrors timestamp d =
     \<lparr> taskGroups =
         map (\<lambda>r. if tg_status r = ''in_progress''
                  then r\<lparr>tg_status := ''error'',
                         tg_message := Some ''Marked as error: Application shutdown while in progress'',
                         tg_endTime := Some timestamp\<rparr>
                  else r) (taskGroups d),
       tasks =
         map (\<lambda>r. if t_status r = ''created'' \<or> t_status r = ''in_progress''
                  then r\<lparr>t_status := ''error'',
                         t_message := Some ''Marked as error: Application shutdown while in progress'',
                         t_endTime := Some timestamp\<rparr>
                  else r) (tasks d) \<rparr>"

section \<open>Flushing a task to the store (TaskScheduler.updateTaskInDatabase)\<close>

text \<open>
  All six columns are written from the object's current fields; \<open>message\<close> is
  \<^verbatim>\<open>task.error || task.currentProgress.message\<close>, where an empty error text is falsy.
\<close>

definition task_message :: "MonitoredScheduledTask \<Rightarrow> string" where
  "task_message task =
     (case error task of
        Some e \<Rightarrow> if e = [] then p_message (currentProgress task) else e
      | None \<Rightarrow> p_message (currentProgress task))"

definition updateTaskInDatabase :: "MonitoredScheduledTask \<Rightarrow> database \<Rightarrow> database" where
  "updateTaskInDatabase task d =
     updateTask (taskId task)
       [T_status (status_value (status task)),
        T_message (Some (task_message task)),
        T_startTime (startTime task),
        T_endTime (endTime task),
        T_summary (summary task),
        T_percentage (p_percentage (currentProgress task))] d"

text \<open>
  The scheduler object: its handle on the store, the keys of its \<open>runningTasks\<close> map
  (the values are the live task objects themselves) and the running flag. \<open>clock\<close> is
  not a field of the class: it is the environment's current time, what \<^verbatim>\<open>new Date()\<close>
  and \<^verbatim>\<open>Date.now()\<close> read.
\<close>

record TaskScheduler =
  db :: database
  runningTasks :: "string list"
  isRunning :: bool
  clock :: int

text \<open>
  \<^verbatim>\<open>emit\<close>: the listeners of the event run synchronously, in registration order, each
  reading the object as it is at that moment.
\<close>

definition emit :: "listener list \<Rightarrow> MonitoredScheduledTask \<Rightarrow> TaskScheduler \<Rightarrow> TaskScheduler" where
  "emit ls task w =
     w\<lparr>db := fold (\<lambda>l d. case l of UpdateTaskInDatabase \<Rightarrow> updateTaskInDatabase task d) ls (db w)\<rparr>"

section \<open>Status management and lifecycle methods\<close>

type_synonym task_state = "MonitoredScheduledTask \<times> TaskScheduler"

definition setStatus :: "TaskStatus \<Rightarrow> task_state \<Rightarrow> task_state" where
  "setStatus s tw =
     (let task = (fst tw)\<lparr>status := s\<rparr> in (task, emit (on_statusChanged task) task (snd tw)))"

definition setError :: "string \<Rightarrow> task_state \<Rightarrow> task_state" where
  "setError e tw =
     (let task = (fst tw)\<lparr>error := Some e, status := ERROR\<rparr>
      in (task, emit (on_statusChanged task) task (snd tw)))"

definition setSummary :: "string \<Rightarrow> task_state \<Rightarrow> task_state" where
  "setSummary s tw =
     (let task = (fst tw)\<lparr>summary := Some s\<rparr>
      in (task, emit (on_summaryUpdated task) task (snd tw)))"

definition updateProgress :: "string \<Rightarrow> int option \<Rightarrow> task_state \<Rightarrow> task_state" where
  "updateProgress m p tw =
     (let task = (fst tw)\<lparr>currentProgress := \<lparr> p_message = m, p_percentage = p \<rparr>\<rparr>
      in (task, emit (on_progressUpdated task) task (snd tw)))"

text \<open>
  \<^verbatim>\<open>skip(reason)\<close>: status, then progress (each emitting), then the summary, which is
  assigned directly and emits nothing.
\<close>

definition skip :: "string \<Rightarrow> task_state \<Rightarrow> task_state" where
  "skip reason tw =
     (let tw' = updateProgress (''Task skipped: '' @ reason) None (setStatus SKIPPED tw)
      in ((fst tw')\<lparr>summary := Some reason\<rparr>, snd tw'))"

text \<open>One call the hook makes. \<open>Await n\<close> lets \<open>n\<close> milliseconds pass.\<close>

fun hook_call :: "hook_step \<Rightarrow> task_state \<Rightarrow> task_state" where
  "hook_call (Await n) tw = (fst tw, (snd tw)\<lparr>clock := clock (snd tw) + int n\<rparr>)"
| "hook_call (UpdateProgress m p) tw = updateProgress m p tw"
| "hook_call (SetSummary s) tw = setSummary s tw"
| "hook_call (SetError e) tw = setError e tw"
| "hook_call (SetStatus s) tw = setStatus s tw"

text \<open>
  \<^verbatim>\<open>start()\<close>, split at its one \<^verbatim>\<open>await\<close>: what runs before the hook, and what runs
  once the hook has returned or thrown. The second component of \<open>start_end\<close> is the
  error \<^verbatim>\<open>start()\<close> rethrows, if any.
\<close>

definition start_begin :: "task_state \<Rightarrow> task_state" where
  "start_begin tw =
     updateProgress ''Starting task...'' None
       (setStatus IN_PROGRESS ((fst tw)\<lparr>startTime := Some (clock (snd tw))\<rparr>, snd tw))"

fun start_end :: "hook_outcome \<Rightarrow> task_state \<Rightarrow> task_state \<times> string option" where
  "start_end Returns tw =
     (updateProgress ''Task completed'' None
        (setStatus COMPLETED ((fst tw)\<lparr>endTime := Some (clock (snd tw))\<rparr>, snd tw)), None)"
| "start_end (Throws msg) tw =
     (updateProgress ''Task failed with error'' None
        (setError msg ((fst tw)\<lparr>endTime := Some (clock (snd tw))\<rparr>, snd tw)), Some msg)"

definition start :: "task_state \<Rightarrow> task_state \<times> string option" where
  "start tw =
     (let hook = execute (fst tw)
      in start_end (snd hook) (fold hook_call (fst hook) (start_begin tw)))"

section \<open>Creating a task (TaskScheduler.createTask)\<close>

text \<open>
  \<^verbatim>\<open>TaskConfig\<close> and \<^verbatim>\<open>TaskGroupConfig\<close>. The advisory \<open>warningHours\<close> and
  \<open>errorHours\<close> are read by the dashboard only and are left out; an absent
  \<open>killOnFail\<close> is falsy, here \<open>False\<close>.
\<close>

record TaskConfig =
  tc_name :: string
  tc_filePath :: string
  tc_params :: params
  tc_killOnFail :: bool


text \<open>
  What \<^verbatim>\<open>require(taskPath)\<close> finds at a path, each time afresh: loading may fail with
  an error of Node's; the default export may be something else than a subclass of
  \<open>MonitoredScheduledTask\<close>; or it is such a class, of which the model keeps the
  behaviour of \<^verbatim>\<open>execute()\<close>.
\<close>

datatype task_module =
    LoadError string
  | NotATask
  | TaskClass "hook_step list \<times> hook_outcome"

text \<open>\<^verbatim>\<open>!params.lastChanged\<close>: an absent key reads \<^verbatim>\<open>undefined\<close>.\<close>

fun falsy :: "jsvalue option \<Rightarrow> bool" where
  "falsy None = True"
| "falsy (Some JNull) = True"
| "falsy (Some (JBool b)) = (\<not> b)"
| "falsy (Some (JNum n)) = (n = 0)"
| "falsy (Some (JStr s)) = (s = [])"
| "falsy (Some (JBigInt n)) = (n = 0)"

text \<open>\<^verbatim>\<open>params.lastChanged = v\<close>: an existing key keeps its place, a new one is added last.\<close>

definition set_param :: "string \<Rightarrow> jsvalue \<Rightarrow> params \<Rightarrow> params" where
  "set_param k v ps =
     (if k \<in> set (map fst ps) then map (\<lambda>kv. if fst kv = k then (k, v) else kv) ps
      else ps @ [(k, v)])"

text \<open>
  The offset from UTC, in seconds, that \<^verbatim>\<open>Intl\<close> uses for the zone America/Phoenix at an
  instant, as the IANA zone data give it: local mean time until 1883, then Mountain
  Standard Time (seven hours behind UTC), with daylight saving or war time in 1918, 1919,
  1942 to 1944 and 1967, and no change since 1967-10-29T08:00:00Z.
\<close>

definition america_phoenix :: "int \<Rightarrow> int" where
  "america_phoenix t =
     (if t < - 2717643600000 then - 26898
      else if t < - 1633273200000 then - 25200
      else if t < - 1615132800000 then - 21600
      else if t < - 1601823600000 then - 25200
      else if t < - 1583683200000 then - 21600
      else if t < - 880210800000 then - 25200
      else if t < - 820519140000 then - 21600
      else if t < - 812653140000 then - 25200
      else if t < - 796845540000 then - 21600
      else if t < - 84380400000 then - 25200
      else if t < - 68659200000 then - 21600
      else - 25200)"

text \<open>
  \<^verbatim>\<open>convertUtcToArizonaTime\<close>: the wall-clock fields of the instant in America/Phoenix,
  to the second, written as \<open>YYYY-MM-DDTHH:MM:SS.000Z\<close> and read again by
  \<^verbatim>\<open>new Date\<close>, that is, as if they were UTC. This is what the function computes when
  the wall-clock year has four digits (1000 to 9999); for other years the text is not in
  the standard date-time format and how \<^verbatim>\<open>new Date\<close> reads it is left to the
  JavaScript engine, so the facts below are stated for instants of that range.
\<close>

definition convertUtcToArizonaTime :: "int \<Rightarrow> int" where
  "convertUtcToArizonaTime utcDate =
     (utcDate + america_phoenix utcDate * 1000) div 1000 * 1000"

text \<open>\<^verbatim>\<open>new Date('2000-01-01T00:00:00.000Z')\<close>.\<close>

definition defaultTime :: int where
  "defaultTime = 946684800000"

text \<open>
  The computed value of \<open>lastChanged\<close>. Ten minutes before the earliest instant a
  \<^verbatim>\<open>Date\<close> can hold there is no valid date, and formatting the invalid date throws a
  RangeError.
\<close>

definition lastChanged :: "database \<Rightarrow> string \<Rightarrow> js_error + string" where
  "lastChanged d name =
     (case getLastCompletedRun d name of
        None \<Rightarrow> Inr (toISOString (convertUtcToArizonaTime defaultTime))
      | Some lastCompletedRun \<Rightarrow>
          (case t_startTime lastCompletedRun of
             None \<Rightarrow> Inr (toISOString (convertUtcToArizonaTime defaultTime))
           | Some lastStartTime \<Rightarrow>
               if valid_date_value (lastStartTime - 10 * 60 * 1000)
               then Inr (toISOString (convertUtcToArizonaTime (lastStartTime - 10 * 60 * 1000)))
               else Inl (new_RangeError ''Invalid time value'')))"

definition calculatedParams :: "database \<Rightarrow> TaskConfig \<Rightarrow> js_error + params" where
  "calculatedParams d taskConfig =
     (if falsy (map_of (tc_params taskConfig) ''lastChanged'')
      then (case lastChanged d (tc_name taskConfig) of
              Inl e \<Rightarrow> Inl e
            | Inr v \<Rightarrow> Inr (set_param ''lastChanged'' (JStr v) (tc_params taskConfig)))
      else Inr (tc_params taskConfig))"

definition createTask ::
  "(string \<Rightarrow> task_module) \<Rightarrow> database \<Rightarrow> TaskConfig \<Rightarrow> string \<Rightarrow>
     js_error + MonitoredScheduledTask \<times> params" where
  "createTask modules d taskConfig tid =
     (case calculatedParams d taskConfig of
        Inl e \<Rightarrow> Inl e
      | Inr ps \<Rightarrow>
          (case modules (tc_filePath taskConfig) of
             LoadError msg \<Rightarrow> Inl (new_Error msg)
           | NotATask \<Rightarrow>
               Inl (new_Error (''Task '' @ tc_name taskConfig @ '' ('' @ tc_filePath taskConfig @
                 '') must extend MonitoredScheduledTask. Please convert this task to use the modern pattern.''))
           | TaskClass hook \<Rightarrow> Inr (new_task (tc_name taskConfig) tid ps hook, ps)))"

section \<open>Running one task (TaskScheduler.executeTask)\<close>






section \<open>Running one group (TaskScheduler.executeTaskGroup)\<close>












section \<open>The scheduler's own operations\<close>

text \<open>
  \<^verbatim>\<open>loadConfiguration\<close> registers the cron triggers, which touches nothing of the
  modelled state, and then runs the startup recovery. \<^verbatim>\<open>start()\<close> does nothing when
  the scheduler is running already; otherwise it runs the recovery and sets the flag.
  \<^verbatim>\<open>cleanup(daysToKeep)\<close> passes its argument on to the store and catches nothing.
\<close>

definition loadConfiguration :: "TaskScheduler \<Rightarrow> TaskScheduler" where
  "loadConfiguration w = w\<lparr>db := markIncompleteTasksAsErrors (clock w) (db w)\<rparr>"

definition scheduler_start :: "TaskScheduler \<Rightarrow> TaskScheduler" where
  "scheduler_start w =
     (if isRunning w then w
      else w\<lparr>db := markIncompleteTasksAsErrors (clock w) (db w), isRunning := True\<rparr>)"

definition cleanup :: "int \<Rightarrow> TaskScheduler \<Rightarrow> TaskScheduler \<times> js_error option" where
  "cleanup daysToKeep w =
     (case cleanupOldRecords (clock w) daysToKeep (db w) of (d, e) \<Rightarrow> (w\<lparr>db := d\<rparr>, e))"

section \<open>Auxiliary notions\<close>

text \<open>
  Used in the proofs only: the days before a year of an era and before a month of a
  year, the order on civil dates, and the ten-character date both texts begin with.
\<close>

fun days_before :: "nat \<Rightarrow> int" where
  "days_before 0 = 0"
| "days_before (Suc k) = days_before k + year_length (int k)"

fun month_start :: "bool \<Rightarrow> nat \<Rightarrow> int" where
  "month_start leap 0 = 0"
| "month_start leap (Suc m) = month_start leap m + month_length leap (int m)"

text \<open>The civil date of a day number, as one triple, is monotone in the day number.\<close>

definition date_less :: "int \<times> int \<times> int \<Rightarrow> int \<times> int \<times> int \<Rightarrow> bool" where
  "date_less a b =
     (fst a < fst b \<or> (fst a = fst b \<and>
        (fst (snd a) < fst (snd b) \<or> (fst (snd a) = fst (snd b) \<and> snd (snd a) < snd (snd b)))))"

definition date_text :: "int \<times> int \<times> int \<Rightarrow> string" where
  "date_text c = pad4 (fst c) @ ''-'' @ pad2 (fst (snd c)) @ ''-'' @ pad2 (snd (snd c))"

definition valid_date :: "int \<times> int \<times> int \<Rightarrow> bool" where
  "valid_date c =
     (0 \<le> fst c \<and> fst c \<le> 9999 \<and> 0 \<le> fst (snd c) \<and> fst (snd c) < 100 \<and>
      0 \<le> snd (snd c) \<and> snd (snd c) < 100)"

text \<open>The terminal values of a status column.\<close>

definition terminal :: "string \<Rightarrow> bool" where
  "terminal s = (s = ''completed'' \<or> s = ''error'' \<or> s = ''skipped'')"

text \<open>The row a fold over completed rows ends with.\<close>

definition latest_of :: "TaskRecord list \<Rightarrow> TaskRecord \<Rightarrow> TaskRecord" where
  "latest_of rs r =
     fold (\<lambda>x best. if endTime_less (t_endTime best) (t_endTime x) then x else best) rs r"

text \<open>
  The order of end instants, a run without an end time being earlier than any run with
  one.
\<close>

fun ended_before :: "int option \<Rightarrow> int option \<Rightarrow> bool" where
  "ended_before None None = False"
| "ended_before None (Some b) = True"
| "ended_before (Some a) None = False"
| "ended_before (Some a) (Some b) = (a < b)"

text \<open>
  The spec's words for the run \<^verbatim>\<open>getLastCompletedRun\<close> is to return: a completed run
  of the name such that no completed run of the name ended at a later instant.
\<close>

definition most_recent_completed :: "database \<Rightarrow> string \<Rightarrow> TaskRecord \<Rightarrow> bool" where
  "most_recent_completed d name r =
     (r \<in> set (tasks d) \<and> t_taskName r = name \<and> t_status r = ''completed'' \<and>
      (\<forall>r' \<in> set (tasks d). t_taskName r' = name \<and> t_status r' = ''completed'' \<longrightarrow>
         \<not> ended_before (t_endTime r) (t_endTime r')))"

text \<open>The instants whose \<^verbatim>\<open>toISOString()\<close> text has a four-digit year, 0000 to 9999.\<close>

definition four_digit_year :: "int \<Rightarrow> bool" where
  "four_digit_year t = (- 62167219200000 \<le> t \<and> t < 253402300800000)"

section \<open>Example states\<close>

text \<open>An empty store and an idle scheduler at time 0, for the examples.\<close>

definition empty_db :: database where
  "empty_db = \<lparr>taskGroups = [], tasks = []\<rparr>"

definition idle_scheduler :: TaskScheduler where
  "idle_scheduler = \<lparr>db = empty_db, runningTasks = [], isRunning = True, clock = 0\<rparr>"

text \<open>A task object that ran to completion: the result of \<open>start\<close> on a fresh task
  whose hook returns at once.\<close>

definition finished_task :: MonitoredScheduledTask where
  "finished_task = fst (fst (start (new_task ''A'' ''id-1'' [] ([], Returns), idle_scheduler)))"

text \<open>
  A task run and a group run created on 2024-01-01 at 12:00:00 UTC, and a scheduler
  whose clock reads 2024-01-31T00:00:00.000Z, thirty days after that day's midnight.
\<close>

definition noon_row :: TaskRecord where
  "noon_row = \<lparr> t_taskGroupId = ''g1'', t_taskId = ''t1'', t_taskName = ''A'', t_params = [],
     t_filePath = ''a.ts'', t_status = ''completed'', t_message = None, t_startTime = None,
     t_endTime = None, t_summary = None, t_percentage = None, t_createdAt = 1704110400 \<rparr>"

definition noon_group :: TaskGroupRecord where
  "noon_group = \<lparr> tg_taskGroupId = ''g1'', tg_groupName = ''G'', tg_status = ''completed'',
     tg_message = None, tg_startTime = 1704110400000, tg_endTime = None, tg_stackTrace = None,
     tg_createdAt = 1704110400 \<rparr>"

definition january_31 :: TaskScheduler where
  "january_31 = \<lparr> db = \<lparr> taskGroups = [noon_group], tasks = [noon_row] \<rparr>,
     runningTasks = [], isRunning = True, clock = 1706659200000 \<rparr>"










definition crashed :: TaskScheduler where
  "crashed = \<lparr> db = \<lparr> taskGroups = [noon_group\<lparr>tg_status := ''in_progress''\<rparr>, noon_group],
                      tasks = [noon_row\<lparr>t_status := ''in_progress''\<rparr>,
                               noon_row\<lparr>t_taskId := ''t2'', t_status := ''created''\<rparr>,
                               noon_row\<lparr>t_taskId := ''t3''\<rparr>] \<rparr>,
     runningTasks = [], isRunning = False, clock = 1706659200000 \<rparr>"



text \<open>
  A task configuration without a \<open>lastChanged\<close> parameter, two completed runs of it
  (ended 2024-04-30T12:01:00Z and 2024-05-01T12:01:00Z), and a module registry in which
  every path holds a task class whose hook returns at once.
\<close>

definition task_A :: TaskConfig where
  "task_A = \<lparr> tc_name = ''A'', tc_filePath = ''a.ts'',
     tc_params = [(''testParam'', JStr ''hello world'')], tc_killOnFail = False \<rparr>"

definition run_A1 :: TaskRecord where
  "run_A1 = \<lparr> t_taskGroupId = ''g1'', t_taskId = ''t1'', t_taskName = ''A'', t_params = [],
     t_filePath = ''a.ts'', t_status = ''completed'', t_message = Some ''Task completed'',
     t_startTime = Some 1714478400000, t_endTime = Some 1714478460000, t_summary = None,
     t_percentage = None, t_createdAt = 1714478400 \<rparr>"

definition run_A2 :: TaskRecord where
  "run_A2 = run_A1\<lparr> t_taskId := ''t2'', t_startTime := Some 1714564800123,
     t_endTime := Some 1714564860000, t_createdAt := 1714564800 \<rparr>"

definition history_db :: database where
  "history_db = \<lparr> taskGroups = [noon_group], tasks = [run_A1, run_A2] \<rparr>"

definition returning_modules :: "string \<Rightarrow> task_module" where
  "returning_modules p = TaskClass ([], Returns)"

section \<open>The calendar and the order of the texts\<close>

subsection \<open>The calendar is monotone\<close>

lemma year_length_pos: "0 < year_length y"
  by (simp add: year_length_def)

lemma days_before_mono: "a \<le> b \<Longrightarrow> days_before a \<le> days_before b"
proof (induction b)
  case 0
  then show ?case by simp
next
  case (Suc b)
  then show ?case using year_length_pos[of "int b"] by (cases "a = Suc b") auto
qed

lemma days_before_numeral:
  "days_before (numeral n) = days_before (pred_numeral n) + year_length (int (pred_numeral n))"
  by (simp add: numeral_eq_Suc)

lemma days_before_400: "days_before 400 = 146097"
  by (simp add: days_before_numeral year_length_def is_leap_def)

lemma days_before_nat_Suc: "0 \<le> y \<Longrightarrow> days_before (nat (y + 1)) = days_before (nat y) + year_length y"
  by (simp add: nat_add_distrib)

lemma year_of_era_inv:
  "0 \<le> y \<Longrightarrow> 0 \<le> r \<Longrightarrow> year_of_era y r = (y', r') \<Longrightarrow>
     y \<le> y' \<and> 0 \<le> r' \<and> r' < year_length y' \<and>
     days_before (nat y') + r' = days_before (nat y) + r"
proof (induction y r rule: year_of_era.induct)
  case (1 y r)
  show ?case
  proof (cases "r < year_length y")
    case True
    with "1.prems" show ?thesis by (simp add: year_of_era.simps[of y r])
  next
    case False
    with "1.prems" have "year_of_era (y + 1) (r - year_length y) = (y', r')"
      by (simp add: year_of_era.simps[of y r])
    moreover have "0 \<le> y + 1" "0 \<le> r - year_length y" using "1.prems" False by simp_all
    ultimately have "y + 1 \<le> y' \<and> 0 \<le> r' \<and> r' < year_length y' \<and>
        days_before (nat y') + r' = days_before (nat (y + 1)) + (r - year_length y)"
      using "1.IH"[OF False] by blast
    then show ?thesis using "1.prems"(1) by (simp add: days_before_nat_Suc)
  qed
qed

lemma year_of_era_lt_400:
  assumes "year_of_era 0 r = (y', r')" "0 \<le> r" "r < 146097"
  shows "0 \<le> y' \<and> y' < 400"
proof -
  from year_of_era_inv[OF _ assms(2) assms(1)]
  have i: "0 \<le> y'" "0 \<le> r'" "days_before (nat y') + r' = r" by simp_all
  have "y' < 400"
  proof (rule ccontr)
    assume "\<not> y' < 400"
    then have "days_before 400 \<le> days_before (nat y')" by (intro days_before_mono) simp
    with i assms(3) show False by (simp add: days_before_400)
  qed
  with i show ?thesis by simp
qed

lemma days_before_Suc_le: "0 \<le> a \<Longrightarrow> a < b \<Longrightarrow> days_before (nat a) + year_length a \<le> days_before (nat b)"
  using days_before_mono[of "Suc (nat a)" "nat b"] by simp

lemma year_of_era_mono:
  assumes "year_of_era 0 r1 = (y1, d1)" "year_of_era 0 r2 = (y2, d2)" "0 \<le> r1" "r1 < r2"
  shows "y1 < y2 \<or> (y1 = y2 \<and> d1 < d2)"
proof -
  from year_of_era_inv[OF _ assms(3) assms(1)]
  have 1: "0 \<le> y1" "0 \<le> d1" "d1 < year_length y1" "days_before (nat y1) + d1 = r1" by simp_all
  from assms have "0 \<le> r2" by simp
  from year_of_era_inv[OF _ this assms(2)]
  have 2: "0 \<le> y2" "0 \<le> d2" "d2 < year_length y2" "days_before (nat y2) + d2 = r2" by simp_all
  consider "y1 < y2" | "y2 < y1" | "y1 = y2" by linarith
  then show ?thesis
  proof cases
    case 1 then show ?thesis by simp
  next
    case 2
    from days_before_Suc_le[OF \<open>0 \<le> y2\<close> 2] 1 \<open>0 \<le> d1\<close> \<open>d2 < year_length y2\<close>
      \<open>days_before (nat y1) + d1 = r1\<close> \<open>days_before (nat y2) + d2 = r2\<close> assms(4)
    show ?thesis by linarith
  next
    case 3
    with 1 2 assms(4) show ?thesis by simp
  qed
qed

lemma month_length_pos: "0 < month_length leap m"
  by (simp add: month_length_def)

lemma month_length_le: "month_length leap m \<le> 31"
  by (simp add: month_length_def)

lemma month_start_mono: "a \<le> b \<Longrightarrow> month_start leap a \<le> month_start leap b"
proof (induction b)
  case 0
  then show ?case by simp
next
  case (Suc b)
  then show ?case using month_length_pos[of leap "int b"] by (cases "a = Suc b") auto
qed

lemma month_start_13: "month_start leap 13 = month_start leap 1 + (if leap then 366 else 365)"
  by (simp add: eval_nat_numeral month_length_def)

lemma month_start_nat_Suc:
  "0 \<le> m \<Longrightarrow> month_start leap (nat (m + 1)) = month_start leap (nat m) + month_length leap m"
  by (simp add: nat_add_distrib)

lemma month_of_year_inv:
  "0 \<le> m \<Longrightarrow> 0 \<le> r \<Longrightarrow> month_of_year leap m r = (m', d') \<Longrightarrow>
     m \<le> m' \<and> 1 \<le> d' \<and> d' \<le> month_length leap m' \<and>
     month_start leap (nat m') + d' = month_start leap (nat m) + r + 1"
proof (induction leap m r rule: month_of_year.induct)
  case (1 leap m r)
  show ?case
  proof (cases "r < month_length leap m")
    case True
    with "1.prems" show ?thesis by (auto simp: month_of_year.simps[of leap m r])
  next
    case False
    with "1.prems" have "month_of_year leap (m + 1) (r - month_length leap m) = (m', d')"
      by (simp add: month_of_year.simps[of leap m r])
    moreover have "0 \<le> m + 1" "0 \<le> r - month_length leap m" using "1.prems" False by simp_all
    ultimately have "m + 1 \<le> m' \<and> 1 \<le> d' \<and> d' \<le> month_length leap m' \<and>
        month_start leap (nat m') + d' =
          month_start leap (nat (m + 1)) + (r - month_length leap m) + 1"
      using "1.IH"[OF False] by blast
    then show ?thesis using "1.prems"(1) by (simp add: month_start_nat_Suc)
  qed
qed

lemma month_start_Suc_le:
  "0 \<le> a \<Longrightarrow> a < b \<Longrightarrow> month_start leap (nat a) + month_length leap a \<le> month_start leap (nat b)"
  using month_start_mono[of "Suc (nat a)" "nat b" leap] by simp

lemma month_of_year_mono:
  assumes "month_of_year leap 1 r1 = (m1, d1)" "month_of_year leap 1 r2 = (m2, d2)"
    "0 \<le> r1" "r1 < r2"
  shows "m1 < m2 \<or> (m1 = m2 \<and> d1 < d2)"
proof -
  from month_of_year_inv[OF _ assms(3) assms(1)]
  have 1: "1 \<le> m1" "1 \<le> d1" "d1 \<le> month_length leap m1"
    "month_start leap (nat m1) + d1 = month_start leap (nat 1) + r1 + 1" by simp_all
  from assms have "0 \<le> r2" by simp
  from month_of_year_inv[OF _ this assms(2)]
  have 2: "1 \<le> m2" "1 \<le> d2" "d2 \<le> month_length leap m2"
    "month_start leap (nat m2) + d2 = month_start leap (nat 1) + r2 + 1" by simp_all
  consider "m1 < m2" | "m2 < m1" | "m1 = m2" by linarith
  then show ?thesis
  proof cases
    case 1 then show ?thesis by simp
  next
    case 2
    have "0 \<le> m2" using \<open>1 \<le> m2\<close> by simp
    from month_start_Suc_le[OF this 2, of leap] 1 \<open>d2 \<le> month_length leap m2\<close>
      \<open>month_start leap (nat m2) + d2 = month_start leap (nat 1) + r2 + 1\<close> assms(4)
    show ?thesis by linarith
  next
    case 3
    with 1 2 assms(4) show ?thesis by simp
  qed
qed

lemma month_of_year_le_12:
  assumes "month_of_year leap 1 r = (m, d)" "0 \<le> r" "r < (if leap then 366 else 365)"
  shows "1 \<le> m \<and> m \<le> 12 \<and> 1 \<le> d \<and> d \<le> 31"
proof -
  from month_of_year_inv[OF _ assms(2) assms(1)]
  have i: "1 \<le> m" "1 \<le> d" "d \<le> month_length leap m"
    "month_start leap (nat m) + d = month_start leap (nat 1) + r + 1"
    by simp_all
  have "m \<le> 12"
  proof (rule ccontr)
    assume "\<not> m \<le> 12"
    then have "month_start leap 13 \<le> month_start leap (nat m)" by (intro month_start_mono) simp
    with i assms(3) show False by (simp add: month_start_13 split: if_splits)
  qed
  with i month_length_le[of leap m] show ?thesis by simp
qed

lemma civil_from_days_cases:
  obtains y d m dd where
    "year_of_era 0 ((z + 719528) mod 146097) = (y, d)"
    "month_of_year (is_leap y) 1 d = (m, dd)"
    "civil_from_days z = ((z + 719528) div 146097 * 400 + y, m, dd)"
    "0 \<le> y" "y < 400" "0 \<le> d" "d < year_length y"
proof -
  let ?r = "(z + 719528) mod 146097"
  obtain y d where yd: "year_of_era 0 ?r = (y, d)" by (cases "year_of_era 0 ?r")
  obtain m dd where md: "month_of_year (is_leap y) 1 d = (m, dd)"
    by (cases "month_of_year (is_leap y) 1 d")
  have r: "0 \<le> ?r" "?r < 146097" by simp_all
  from year_of_era_lt_400[OF yd r] have y: "0 \<le> y" "y < 400" by simp_all
  from year_of_era_inv[OF _ r(1) yd] have d: "0 \<le> d" "d < year_length y" by simp_all
  have c: "civil_from_days z = ((z + 719528) div 146097 * 400 + y, m, dd)"
    by (simp add: civil_from_days_def yd md)
  show ?thesis by (rule that[OF yd md c y d])
qed

lemma civil_from_days_bounds:
  "1 \<le> fst (snd (civil_from_days z)) \<and> fst (snd (civil_from_days z)) \<le> 12 \<and>
   1 \<le> snd (snd (civil_from_days z)) \<and> snd (snd (civil_from_days z)) \<le> 31"
proof -
  obtain y d m dd where c: "month_of_year (is_leap y) 1 d = (m, dd)"
    "civil_from_days z = ((z + 719528) div 146097 * 400 + y, m, dd)"
    "0 \<le> d" "d < year_length y"
    by (rule civil_from_days_cases)
  from c(4) have "d < (if is_leap y then 366 else 365)" by (simp add: year_length_def)
  from month_of_year_le_12[OF c(1) c(3) this] show ?thesis by (simp add: c(2))
qed

lemma civil_from_days_year:
  assumes "- 719528 \<le> z" "z < 2932897"
  shows "0 \<le> fst (civil_from_days z) \<and> fst (civil_from_days z) \<le> 9999"
proof -
  obtain y d m dd where c:
    "civil_from_days z = ((z + 719528) div 146097 * 400 + y, m, dd)" "0 \<le> y" "y < 400"
    by (rule civil_from_days_cases)
  from assms have "0 div 146097 \<le> (z + 719528) div 146097"
    by (intro zdiv_mono1) simp_all
  moreover from assms have "(z + 719528) div 146097 \<le> 3652424 div 146097"
    by (intro zdiv_mono1) simp_all
  ultimately have "0 \<le> (z + 719528) div 146097" "(z + 719528) div 146097 \<le> 24"
    by simp_all
  with c show ?thesis by simp
qed

lemma civil_from_days_mono:
  assumes "z1 < z2"
  shows "date_less (civil_from_days z1) (civil_from_days z2)"
proof -
  define e1 where "e1 = (z1 + 719528) div 146097"
  define e2 where "e2 = (z2 + 719528) div 146097"
  define r1 where "r1 = (z1 + 719528) mod 146097"
  define r2 where "r2 = (z2 + 719528) mod 146097"
  obtain y1 d1 m1 dd1 where c1: "year_of_era 0 r1 = (y1, d1)"
    "month_of_year (is_leap y1) 1 d1 = (m1, dd1)"
    "civil_from_days z1 = (e1 * 400 + y1, m1, dd1)" "0 \<le> y1" "y1 < 400" "0 \<le> d1"
    unfolding e1_def r1_def by (rule civil_from_days_cases)
  obtain y2 d2 m2 dd2 where c2: "year_of_era 0 r2 = (y2, d2)"
    "month_of_year (is_leap y2) 1 d2 = (m2, dd2)"
    "civil_from_days z2 = (e2 * 400 + y2, m2, dd2)" "0 \<le> y2" "y2 < 400" "0 \<le> d2"
    unfolding e2_def r2_def by (rule civil_from_days_cases)
  have z1: "z1 + 719528 = e1 * 146097 + r1" by (simp add: e1_def r1_def)
  have z2: "z2 + 719528 = e2 * 146097 + r2" by (simp add: e2_def r2_def)
  have r: "0 \<le> r1" "r1 < 146097" "0 \<le> r2" "r2 < 146097" by (simp_all add: r1_def r2_def)
  have "e1 \<le> e2" unfolding e1_def e2_def using assms by (intro zdiv_mono1) simp_all
  show ?thesis
  proof (cases "e1 < e2")
    case True
    with c1(5) c2(4) show ?thesis by (simp add: c1(3) c2(3) date_less_def)
  next
    case False
    with \<open>e1 \<le> e2\<close> have e: "e1 = e2" by simp
    with z1 z2 assms have "r1 < r2" by simp
    from year_of_era_mono[OF c1(1) c2(1) r(1) this] show ?thesis
    proof
      assume "y1 < y2" then show ?thesis by (simp add: c1(3) c2(3) date_less_def e)
    next
      assume a: "y1 = y2 \<and> d1 < d2"
      with c1(2) c2(2) c1(6) month_of_year_mono[of "is_leap y1" d1 m1 dd1 d2 m2 dd2]
      show ?thesis by (auto simp: c1(3) c2(3) date_less_def e)
    qed
  qed
qed

subsection \<open>Byte order of the date texts\<close>

lemma of_char_digit: "0 \<le> n \<Longrightarrow> n < 10 \<Longrightarrow> (of_char (digit n) :: nat) = 48 + nat n"
proof -
  assume "0 \<le> n" "n < 10"
  then have "n \<in> {0, 1, 2, 3, 4, 5, 6, 7, 8, 9}"
    by (simp add: insert_iff) presburger
  then show ?thesis by (elim insertE emptyE) (simp_all add: digit_def)
qed

lemma digit_eq_iff: "0 \<le> a \<Longrightarrow> a < 10 \<Longrightarrow> 0 \<le> b \<Longrightarrow> b < 10 \<Longrightarrow> digit a = digit b \<longleftrightarrow> a = b"
proof
  assume h: "0 \<le> a" "a < 10" "0 \<le> b" "b < 10" "digit a = digit b"
  then have "(48 + nat a :: nat) = 48 + nat b"
    using of_char_digit[of a] of_char_digit[of b] by simp
  with h show "a = b" by simp
qed simp

lemma text_less_irrefl [simp]: "\<not> text_less a a"
  by (induction a) simp_all

lemma text_less_append:
  "length a = length b \<Longrightarrow>
     text_less (a @ x) (b @ y) = (text_less a b \<or> (a = b \<and> text_less x y))"
proof (induction a b rule: list_induct2)
  case Nil
  show ?case by simp
next
  case (Cons p ps q qs)
  then show ?case by (auto simp: of_char_eq_iff)
qed

lemma length_pad2 [simp]: "length (pad2 n) = 2"
  by (simp add: pad2_def)

lemma length_pad4 [simp]: "length (pad4 n) = 4"
  by (simp add: pad4_def)

lemma lex_div_mod:
  fixes a b k :: int
  assumes "0 < k"
  shows "(a < b) = (a div k < b div k \<or> (a div k = b div k \<and> a mod k < b mod k))"
proof (cases "a div k = b div k")
  case True
  have "a = k * (a div k) + a mod k" "b = k * (b div k) + b mod k" by simp_all
  with True show ?thesis by (metis add_less_cancel_left less_irrefl)
next
  case False
  show ?thesis
  proof
    assume "a < b"
    then have "a div k \<le> b div k" using assms by (intro zdiv_mono1) simp_all
    with False show "a div k < b div k \<or> (a div k = b div k \<and> a mod k < b mod k)" by simp
  next
    assume "a div k < b div k \<or> (a div k = b div k \<and> a mod k < b mod k)"
    with False have l: "a div k < b div k" by simp
    show "a < b"
    proof (rule ccontr)
      assume "\<not> a < b"
      then have "b div k \<le> a div k" using assms by (intro zdiv_mono1) simp_all
      with l show False by simp
    qed
  qed
qed

lemma eq_div_mod:
  fixes a b k :: int
  shows "(a = b) = (a div k = b div k \<and> a mod k = b mod k)"
  by (metis div_mult_mod_eq)

lemma two_digits:
  fixes a :: int
  assumes "0 \<le> a" "a < 100"
  shows "0 \<le> a div 10" "a div 10 < 10" "0 \<le> a mod 10" "a mod 10 < 10" "a div 10 mod 10 = a div 10"
proof -
  show 1: "0 \<le> a div 10" using assms by (simp add: pos_imp_zdiv_nonneg_iff)
  have "a div 10 \<le> 99 div 10" using assms by (intro zdiv_mono1) simp_all
  then show 2: "a div 10 < 10" by simp
  show "0 \<le> a mod 10" "a mod 10 < 10" by simp_all
  from 1 2 show "a div 10 mod 10 = a div 10" by simp
qed

lemma text_less_two_digits:
  assumes "0 \<le> p" "p < 10" "0 \<le> q" "q < 10" "0 \<le> p'" "p' < 10" "0 \<le> q'" "q' < 10"
  shows "text_less [digit p, digit q] [digit p', digit q'] = (p < p' \<or> (p = p' \<and> q < q'))"
  using assms by (simp add: of_char_digit)

lemma text_less_pad2:
  assumes "0 \<le> a" "a < 100" "0 \<le> b" "b < 100"
  shows "text_less (pad2 a) (pad2 b) = (a < b)"
proof -
  note da = two_digits[OF assms(1,2)] and db = two_digits[OF assms(3,4)]
  have "text_less (pad2 a) (pad2 b) =
      (a div 10 < b div 10 \<or> (a div 10 = b div 10 \<and> a mod 10 < b mod 10))"
    unfolding pad2_def da(5) db(5) by (rule text_less_two_digits[OF da(1-4) db(1-4)])
  also have "\<dots> = (a < b)" by (rule lex_div_mod[symmetric]) simp
  finally show ?thesis .
qed

lemma pad2_eq_iff:
  assumes "0 \<le> a" "a < 100" "0 \<le> b" "b < 100"
  shows "pad2 a = pad2 b \<longleftrightarrow> a = b"
proof -
  note da = two_digits[OF assms(1,2)] and db = two_digits[OF assms(3,4)]
  have "(pad2 a = pad2 b) = (a div 10 = b div 10 \<and> a mod 10 = b mod 10)"
    unfolding pad2_def da(5) db(5)
    by (simp add: digit_eq_iff[OF da(1,2) db(1,2)] digit_eq_iff[OF da(3,4) db(3,4)])
  also have "\<dots> = (a = b)" by (rule eq_div_mod[symmetric])
  finally show ?thesis .
qed

lemma four_digits:
  fixes a :: int
  assumes "0 \<le> a" "a \<le> 9999"
  shows "0 \<le> a div 100" "a div 100 < 100" "0 \<le> a mod 100" "a mod 100 < 100"
    "a div 100 mod 100 = a div 100"
proof -
  show 1: "0 \<le> a div 100" using assms by (simp add: pos_imp_zdiv_nonneg_iff)
  have "a div 100 \<le> 9999 div 100" using assms by (intro zdiv_mono1) simp_all
  then show 2: "a div 100 < 100" by simp
  show "0 \<le> a mod 100" "a mod 100 < 100" by simp_all
  from 1 2 show "a div 100 mod 100 = a div 100" by simp
qed

lemma text_less_pad4:
  assumes "0 \<le> a" "a \<le> 9999" "0 \<le> b" "b \<le> 9999"
  shows "text_less (pad4 a) (pad4 b) = (a < b)"
proof -
  note da = four_digits[OF assms(1,2)] and db = four_digits[OF assms(3,4)]
  show ?thesis
proof -
    have "text_less (pad4 a) (pad4 b) =
        (a div 100 < b div 100 \<or> (a div 100 = b div 100 \<and> a mod 100 < b mod 100))"
      unfolding pad4_def da(5) db(5)
      by (subst text_less_append, simp)
         (simp add: text_less_pad2[OF da(1,2) db(1,2)] pad2_eq_iff[OF da(1,2) db(1,2)]
            text_less_pad2[OF da(3,4) db(3,4)])
    also have "\<dots> = (a < b)" by (rule lex_div_mod[symmetric]) simp
    finally show ?thesis .
  qed
qed

lemma pad4_eq_iff:
  assumes "0 \<le> a" "a \<le> 9999" "0 \<le> b" "b \<le> 9999"
  shows "pad4 a = pad4 b \<longleftrightarrow> a = b"
proof -
  note da = four_digits[OF assms(1,2)] and db = four_digits[OF assms(3,4)]
  have "(pad4 a = pad4 b) = (a div 100 = b div 100 \<and> a mod 100 = b mod 100)"
    by (simp add: pad4_def da(5) db(5) pad2_eq_iff[OF da(1,2) db(1,2)]
        pad2_eq_iff[OF da(3,4) db(3,4)])
  also have "\<dots> = (a = b)" by (rule eq_div_mod[symmetric])
  finally show ?thesis .
qed

lemma text_less_date_text:
  assumes "valid_date c1" "valid_date c2"
  shows "text_less (date_text c1 @ x) (date_text c2 @ y) =
           (date_less c1 c2 \<or> (c1 = c2 \<and> text_less x y))"
proof -
  obtain y1 m1 d1 where c1: "c1 = (y1, m1, d1)" by (cases c1) auto
  obtain y2 m2 d2 where c2: "c2 = (y2, m2, d2)" by (cases c2) auto
  from assms have b: "0 \<le> y1" "y1 \<le> 9999" "0 \<le> y2" "y2 \<le> 9999"
    "0 \<le> m1" "m1 < 100" "0 \<le> m2" "m2 < 100" "0 \<le> d1" "d1 < 100" "0 \<le> d2" "d2 < 100"
    by (auto simp: valid_date_def c1 c2)
  have e: "date_text c1 @ x = pad4 y1 @ (''-'' @ (pad2 m1 @ (''-'' @ (pad2 d1 @ x))))"
    "date_text c2 @ y = pad4 y2 @ (''-'' @ (pad2 m2 @ (''-'' @ (pad2 d2 @ y))))"
    by (simp_all add: date_text_def c1 c2)
  show ?thesis
    unfolding e
    apply (subst text_less_append, simp)
    apply (subst text_less_append, simp)
    apply (subst text_less_append, simp)
    apply (subst text_less_append, simp)
    apply (subst text_less_append, simp)
    apply (simp add: text_less_pad4[OF b(1-4)] pad4_eq_iff[OF b(1-4)] text_less_pad2[OF b(5-8)]
        pad2_eq_iff[OF b(5-8)] text_less_pad2[OF b(9-12)] pad2_eq_iff[OF b(9-12)])
    apply (auto simp: date_less_def c1 c2)
    done
qed

lemma date_less_asym: "date_less a b \<Longrightarrow> \<not> date_less b a \<and> a \<noteq> b"
  by (auto simp: date_less_def)

lemma date_less_civil_iff: "date_less (civil_from_days z1) (civil_from_days z2) \<longleftrightarrow> z1 < z2"
proof
  assume l: "date_less (civil_from_days z1) (civil_from_days z2)"
  show "z1 < z2"
  proof (rule ccontr)
    assume "\<not> z1 < z2"
    then consider "z1 = z2" | "z2 < z1" by linarith
    then show False
    proof cases
      case 1 with l date_less_asym show ?thesis by blast
    next
      case 2
      from civil_from_days_mono[OF 2] l date_less_asym show ?thesis by blast
    qed
  qed
qed (rule civil_from_days_mono)

lemma civil_from_days_inj: "civil_from_days z1 = civil_from_days z2 \<longleftrightarrow> z1 = z2"
proof
  assume e: "civil_from_days z1 = civil_from_days z2"
  show "z1 = z2"
  proof (rule ccontr)
    assume "z1 \<noteq> z2"
    then consider "z1 < z2" | "z2 < z1" by linarith
    then show False
      using civil_from_days_mono[of z1 z2] civil_from_days_mono[of z2 z1] e date_less_asym
      by cases metis+
  qed
qed simp

lemma valid_date_civil:
  "- 719528 \<le> z \<Longrightarrow> z < 2932897 \<Longrightarrow> valid_date (civil_from_days z)"
  using civil_from_days_year[of z] civil_from_days_bounds[of z] by (simp add: valid_date_def)


subsection \<open>The DELETE's comparison\<close>

lemmas calendar_eval = toISOString_def CURRENT_TIMESTAMP_def civil_from_days_def is_leap_def
  year_length_def month_length_def year_of_era.simps month_of_year.simps
  iso_year_def pad2_def pad3_def pad4_def pad6_def time_text_def digit_def

lemma day_range_ms:
  "- 62167219200000 \<le> (t::int) \<Longrightarrow> t < 253402300800000 \<Longrightarrow>
     - 719528 \<le> t div 86400000 \<and> t div 86400000 < 2932897"
proof -
  assume a: "- 62167219200000 \<le> t" "t < 253402300800000"
  have "(- 62167219200000) div 86400000 \<le> t div 86400000"
    using a by (intro zdiv_mono1) simp_all
  moreover have "t div 86400000 \<le> 253402300799999 div 86400000"
    using a by (intro zdiv_mono1) simp_all
  ultimately show ?thesis by simp
qed




subsection \<open>The order of ISO texts\<close>

lemma three_digits:
  fixes a :: int
  assumes "0 \<le> a" "a < 1000"
  shows "0 \<le> a div 100" "a div 100 < 10" "0 \<le> a mod 100" "a mod 100 < 100"
    "a div 100 mod 10 = a div 100"
proof -
  show 1: "0 \<le> a div 100" using assms by (simp add: pos_imp_zdiv_nonneg_iff)
  have "a div 100 \<le> 999 div 100" using assms by (intro zdiv_mono1) simp_all
  then show 2: "a div 100 < 10" by simp
  show "0 \<le> a mod 100" "a mod 100 < 100" by simp_all
  from 1 2 show "a div 100 mod 10 = a div 100" by simp
qed

lemma text_less_pad3:
  assumes "0 \<le> a" "a < 1000" "0 \<le> b" "b < 1000"
  shows "text_less (pad3 a) (pad3 b) = (a < b)"
proof -
  note da = three_digits[OF assms(1,2)] and db = three_digits[OF assms(3,4)]
  have e: "pad3 a = [digit (a div 100)] @ pad2 (a mod 100)" "pad3 b = [digit (b div 100)] @ pad2 (b mod 100)"
    by (simp_all add: pad3_def da(5) db(5))
  have d: "text_less [digit (a div 100)] [digit (b div 100)] = (a div 100 < b div 100)"
    using text_less_two_digits[of 0 "a div 100" 0 "b div 100"] da(1,2) db(1,2) by simp
  have "text_less (pad3 a) (pad3 b) =
      (a div 100 < b div 100 \<or> (a div 100 = b div 100 \<and> a mod 100 < b mod 100))"
    unfolding e
    by (subst text_less_append, simp)
       (simp only: d text_less_pad2[OF da(3,4) db(3,4)] list.inject simp_thms
          digit_eq_iff[OF da(1,2) db(1,2)])
  also have "\<dots> = (a < b)" by (rule lex_div_mod[symmetric]) simp
  finally show ?thesis .
qed

text \<open>The part of an ISO text after the date, for the millisecond \<open>r\<close> of a day.\<close>

lemma time_of_day_less:
  fixes a b :: int
  assumes "0 \<le> a" "a < 86400000" "0 \<le> b" "b < 86400000"
  shows "text_less (''T'' @ time_text (a div 1000) @ ''.'' @ pad3 (a mod 1000) @ ''Z'')
                   (''T'' @ time_text (b div 1000) @ ''.'' @ pad3 (b mod 1000) @ ''Z'') = (a < b)"
proof -
  define sa where "sa = a div 1000"
  define sb where "sb = b div 1000"
  have sa: "0 \<le> sa" "sa < 86400"
    using assms(1,2) unfolding sa_def by (simp_all add: pos_imp_zdiv_nonneg_iff div_less_iff_less_mult)
  have sb: "0 \<le> sb" "sb < 86400"
    using assms(3,4) unfolding sb_def by (simp_all add: pos_imp_zdiv_nonneg_iff div_less_iff_less_mult)
  have ha: "0 \<le> sa div 3600" "sa div 3600 < 100"
    using sa by (simp_all add: pos_imp_zdiv_nonneg_iff div_less_iff_less_mult)
  have hb: "0 \<le> sb div 3600" "sb div 3600 < 100"
    using sb by (simp_all add: pos_imp_zdiv_nonneg_iff div_less_iff_less_mult)
  have m: "0 \<le> x div 60 mod 60" "x div 60 mod 60 < 100" "0 \<le> x mod 60" "x mod 60 < 100"
    "0 \<le> x mod 1000" "x mod 1000 < 1000" for x :: int
    using pos_mod_bound[of 60 "x div 60"] pos_mod_bound[of 60 x] by simp_all
  have h: "x div 3600 = x div 60 div 60" for x :: int
    by (simp add: div_mult2_eq[symmetric])
  have "text_less (''T'' @ time_text sa @ ''.'' @ pad3 (a mod 1000) @ ''Z'')
                  (''T'' @ time_text sb @ ''.'' @ pad3 (b mod 1000) @ ''Z'') =
        (sa div 3600 < sb div 3600 \<or> (sa div 3600 = sb div 3600 \<and>
          (sa div 60 mod 60 < sb div 60 mod 60 \<or> (sa div 60 mod 60 = sb div 60 mod 60 \<and>
            (sa mod 60 < sb mod 60 \<or> (sa mod 60 = sb mod 60 \<and> a mod 1000 < b mod 1000))))))"
    unfolding time_text_def
    apply (simp only: append_Cons append_Nil text_less.simps of_char_eq_iff simp_thms if_False
        less_irrefl)
    apply (subst text_less_append, simp)
    apply (simp only: append_Cons append_Nil text_less.simps of_char_eq_iff simp_thms if_False
        less_irrefl)
    apply (subst text_less_append, simp)
    apply (simp only: append_Cons append_Nil text_less.simps of_char_eq_iff simp_thms if_False
        less_irrefl)
    apply (subst text_less_append, simp)
    apply (simp only: append_Cons append_Nil text_less.simps of_char_eq_iff simp_thms if_False
        less_irrefl)
    apply (subst text_less_append, simp add: pad3_def)
    apply (simp add: text_less_pad2[OF ha hb] pad2_eq_iff[OF ha hb]
        text_less_pad2[OF m(1,2) m(1,2)] pad2_eq_iff[OF m(1,2) m(1,2)]
        text_less_pad2[OF m(3,4) m(3,4)] pad2_eq_iff[OF m(3,4) m(3,4)]
        text_less_pad3[OF m(5,6) m(5,6)])
    apply blast
    done
  also have "\<dots> = (sa < sb \<or> (sa = sb \<and> a mod 1000 < b mod 1000))"
    unfolding lex_div_mod[of 60 sa sb, simplified] eq_div_mod[of sa sb 60]
      lex_div_mod[of 60 "sa div 60" "sb div 60", simplified] eq_div_mod[of "sa div 60" "sb div 60" 60] h
    by blast
  also have "\<dots> = (a < b)"
    unfolding sa_def sb_def by (rule lex_div_mod[symmetric]) simp
  finally show ?thesis unfolding sa_def sb_def .
qed

lemma toISOString_less_iff:
  assumes "four_digit_year a" "four_digit_year b"
  shows "text_less (toISOString a) (toISOString b) \<longleftrightarrow> a < b"
proof -
  let ?ca = "civil_from_days (a div 86400000)" and ?cb = "civil_from_days (b div 86400000)"
  from assms have ra: "- 719528 \<le> a div 86400000 \<and> a div 86400000 < 2932897"
    and rb: "- 719528 \<le> b div 86400000 \<and> b div 86400000 < 2932897"
    by (simp_all add: four_digit_year_def day_range_ms)
  then have va: "valid_date ?ca" and vb: "valid_date ?cb"
    by (simp_all add: valid_date_civil)
  from va have ia: "iso_year (fst ?ca) = pad4 (fst ?ca)" by (simp add: iso_year_def valid_date_def)
  from vb have ib: "iso_year (fst ?cb) = pad4 (fst ?cb)" by (simp add: iso_year_def valid_date_def)
  have m: "x mod 86400000 mod 1000 = x mod 1000" for x :: int
    by (simp add: mod_mod_cancel)
  have ea: "toISOString a = date_text ?ca @ (''T'' @ time_text (a mod 86400000 div 1000) @ ''.'' @
      pad3 (a mod 86400000 mod 1000) @ ''Z'')"
    by (simp add: toISOString_def date_text_def case_prod_unfold ia m)
  have eb: "toISOString b = date_text ?cb @ (''T'' @ time_text (b mod 86400000 div 1000) @ ''.'' @
      pad3 (b mod 86400000 mod 1000) @ ''Z'')"
    by (simp add: toISOString_def date_text_def case_prod_unfold ib m)
  have t: "text_less (''T'' @ time_text (a mod 86400000 div 1000) @ ''.'' @
      pad3 (a mod 86400000 mod 1000) @ ''Z'') (''T'' @ time_text (b mod 86400000 div 1000) @ ''.'' @
      pad3 (b mod 86400000 mod 1000) @ ''Z'') = (a mod 86400000 < b mod 86400000)"
    by (rule time_of_day_less) simp_all
  have "text_less (toISOString a) (toISOString b) =
      (a div 86400000 < b div 86400000 \<or>
       (a div 86400000 = b div 86400000 \<and> a mod 86400000 < b mod 86400000))"
    unfolding ea eb text_less_date_text[OF va vb] t
    by (simp add: date_less_civil_iff civil_from_days_inj)
  also have "\<dots> = (a < b)" by (rule lex_div_mod[symmetric]) simp
  finally show ?thesis .
qed

section \<open>The lifecycle object does not guard its terminal states\<close>

lemma status_setStatus [simp]: "status (fst (setStatus s tw)) = s"
  by (simp add: setStatus_def Let_def)

lemma status_setError [simp]: "status (fst (setError e tw)) = ERROR"
  by (simp add: setError_def Let_def)

lemma status_updateProgress [simp]: "status (fst (updateProgress m p tw)) = status (fst tw)"
  by (simp add: updateProgress_def Let_def)

lemma status_setSummary [simp]: "status (fst (setSummary x tw)) = status (fst tw)"
  by (simp add: setSummary_def Let_def)

lemma status_skip [simp]: "status (fst (skip r tw)) = SKIPPED"
  by (simp add: skip_def Let_def)

lemma status_start_end:
  "status (fst (fst (start_end out tw))) = (case out of Returns \<Rightarrow> COMPLETED | Throws m \<Rightarrow> ERROR)"
  by (cases out) simp_all

lemma status_start:
  "status (fst (fst (start tw))) =
     (case snd (execute (fst tw)) of Returns \<Rightarrow> COMPLETED | Throws m \<Rightarrow> ERROR)"
  by (simp add: start_def Let_def status_start_end)

section \<open>Facts about the store\<close>

lemma CURRENT_TIMESTAMP_noon: "CURRENT_TIMESTAMP 1704110400 = ''2024-01-01 12:00:00''"
  by (simp add: calendar_eval)

lemma toISOString_cutoff: "toISOString 1704067200000 = ''2024-01-01T00:00:00.000Z''"
  by (simp add: calendar_eval)

text \<open>The clean-up, case by case.\<close>

lemma cleanupOldRecords_invalid:
  "\<not> valid_date_value (now - days * 24 * 60 * 60 * 1000) \<Longrightarrow>
     cleanupOldRecords now days d = (d, Some (new_RangeError ''Invalid time value''))"
  by (simp add: cleanupOldRecords_def)




lemma cleanupOldRecords_subset:
  "set (tasks (fst (cleanupOldRecords now days d))) \<subseteq> set (tasks d)"
  "set (taskGroups (fst (cleanupOldRecords now days d))) \<subseteq> set (taskGroups d)"
  by (auto simp: cleanupOldRecords_def Let_def)













section \<open>Facts about the last completed run\<close>

lemma text_less_trans: "text_less a b \<Longrightarrow> text_less b c \<Longrightarrow> text_less a c"
proof (induction a b arbitrary: c rule: text_less.induct)
  case 1
  then show ?case by simp
next
  case (2 y ys)
  then show ?case by (cases c) simp_all
next
  case (3 x xs)
  then show ?case by simp
next
  case (4 x xs y ys)
  show ?case
  proof (cases c)
    case Nil
    with 4 show ?thesis by simp
  next
    case (Cons z zs)
    with "4.prems" "4.IH"[of zs] show ?thesis
      by (auto split: if_splits simp: of_char_eq_iff)
  qed
qed

lemma text_less_total: "text_less a b \<or> a = b \<or> text_less b a"
proof (induction a b rule: text_less.induct)
  case (4 x xs y ys)
  then show ?case by (auto simp: of_char_eq_iff)
qed simp_all

lemma text_less_asym: "text_less a b \<Longrightarrow> \<not> text_less b a"
  using text_less_trans[of a b a] by auto

lemma endTime_less_irrefl [simp]: "\<not> endTime_less a a"
  by (cases a) simp_all

lemma endTime_less_trans: "endTime_less a b \<Longrightarrow> endTime_less b c \<Longrightarrow> endTime_less a c"
  by (cases a; cases b; cases c) (auto intro: text_less_trans)

lemma endTime_not_less_trans:
  "\<not> endTime_less a b \<Longrightarrow> \<not> endTime_less b c \<Longrightarrow> \<not> endTime_less a c"
proof (cases a; cases b; cases c)
  fix x y z
  assume h: "\<not> endTime_less a b" "\<not> endTime_less b c" and e: "a = Some x" "b = Some y" "c = Some z"
  show "\<not> endTime_less a c"
  proof
    assume "endTime_less a c"
    with e have ac: "text_less (toISOString x) (toISOString z)" by simp
    from h e have nab: "\<not> text_less (toISOString x) (toISOString y)"
      and nbc: "\<not> text_less (toISOString y) (toISOString z)" by simp_all
    from text_less_total[of "toISOString x" "toISOString y"] nab
    consider "toISOString x = toISOString y" | "text_less (toISOString y) (toISOString x)" by blast
    then show False
    proof cases
      case 1 with ac nbc show ?thesis by simp
    next
      case 2 with ac nbc text_less_trans show ?thesis by blast
    qed
  qed
qed simp_all

lemma latest_of_max:
  "latest_of rs r \<in> set (r # rs) \<and>
   (\<forall>y \<in> set (r # rs). \<not> endTime_less (t_endTime (latest_of rs r)) (t_endTime y))"
proof (induction rs arbitrary: r)
  case Nil
  show ?case by (simp add: latest_of_def)
next
  case (Cons x xs)
  let ?b = "if endTime_less (t_endTime r) (t_endTime x) then x else r"
  let ?l = "latest_of xs ?b"
  have e: "latest_of (x # xs) r = ?l" by (simp add: latest_of_def)
  from Cons.IH[of ?b] have i: "?l \<in> set (?b # xs)"
    "\<forall>y \<in> set (?b # xs). \<not> endTime_less (t_endTime ?l) (t_endTime y)"
    by blast+
  from i(2) have lb: "\<not> endTime_less (t_endTime ?l) (t_endTime ?b)" by simp
  have "\<not> endTime_less (t_endTime ?l) (t_endTime r) \<and> \<not> endTime_less (t_endTime ?l) (t_endTime x)"
  proof (cases "endTime_less (t_endTime r) (t_endTime x)")
    case True
    with lb have lx: "\<not> endTime_less (t_endTime ?l) (t_endTime x)" by simp
    moreover have "\<not> endTime_less (t_endTime ?l) (t_endTime r)"
    proof
      assume "endTime_less (t_endTime ?l) (t_endTime r)"
      from endTime_less_trans[OF this True] lx show False by simp
    qed
    ultimately show ?thesis by simp
  next
    case False
    with lb have lr: "\<not> endTime_less (t_endTime ?l) (t_endTime r)" by simp
    from endTime_not_less_trans[OF lr False] lr show ?thesis by simp
  qed
  with i show ?case unfolding e by (auto split: if_splits)
qed

lemma getLastCompletedRun_None:
  "getLastCompletedRun d name = None \<longleftrightarrow>
     \<not> (\<exists>r \<in> set (tasks d). t_taskName r = name \<and> t_status r = ''completed'')"
proof -
  let ?f = "filter (\<lambda>r. t_taskName r = name \<and> t_status r = ''completed'') (tasks d)"
  have "(?f = []) = (\<not> (\<exists>r \<in> set (tasks d). t_taskName r = name \<and> t_status r = ''completed''))"
    by (simp add: filter_empty_conv)
  then show ?thesis by (cases ?f) (auto simp: getLastCompletedRun_def)
qed

text \<open>
  For end times whose texts have four-digit years, the order of the texts is the order of
  the instants.
\<close>

lemma endTime_less_instants:
  assumes "\<forall>e. a = Some e \<longrightarrow> four_digit_year e" "\<forall>e. b = Some e \<longrightarrow> four_digit_year e"
  shows "endTime_less a b = ended_before a b"
  using assms by (cases a; cases b) (simp_all add: toISOString_less_iff)

lemma getLastCompletedRun_Some:
  assumes "getLastCompletedRun d name = Some r"
    and "\<forall>r \<in> set (tasks d). \<forall>e. t_endTime r = Some e \<longrightarrow> four_digit_year e"
  shows "most_recent_completed d name r"
proof -
  let ?f = "filter (\<lambda>r. t_taskName r = name \<and> t_status r = ''completed'') (tasks d)"
  from assms(1) obtain x xs where f: "?f = x # xs" and r: "r = latest_of xs x"
    by (auto simp: getLastCompletedRun_def latest_of_def split: list.splits)
  from latest_of_max[of xs x] r f have m: "r \<in> set ?f"
    "\<forall>y \<in> set ?f. \<not> endTime_less (t_endTime r) (t_endTime y)" by simp_all
  from m(1) have rd: "r \<in> set (tasks d)" by simp
  have "\<not> ended_before (t_endTime r) (t_endTime y)" if "y \<in> set ?f" for y
  proof -
    from that have yd: "y \<in> set (tasks d)" by simp
    from assms(2) rd yd have "endTime_less (t_endTime r) (t_endTime y) =
        ended_before (t_endTime r) (t_endTime y)"
      by (intro endTime_less_instants) blast+
    with m(2) that show ?thesis by blast
  qed
  with m(1) show ?thesis by (auto simp: most_recent_completed_def)
qed

text \<open>A completed run that ended after every other completed run of the name is the one returned.\<close>

lemma ended_before_asym: "ended_before a b \<Longrightarrow> \<not> ended_before b a"
  by (cases a; cases b) simp_all

lemma getLastCompletedRun_latest:
  assumes "r \<in> set (tasks d)" "t_taskName r = name" "t_status r = ''completed''"
    and "\<forall>r' \<in> set (tasks d). r' \<noteq> r \<and> t_taskName r' = name \<and> t_status r' = ''completed'' \<longrightarrow>
           ended_before (t_endTime r') (t_endTime r)"
    and "\<forall>r \<in> set (tasks d). \<forall>e. t_endTime r = Some e \<longrightarrow> four_digit_year e"
  shows "getLastCompletedRun d name = Some r"
proof -
  from assms(1-3) getLastCompletedRun_None[of d name]
  obtain q where q: "getLastCompletedRun d name = Some q" by auto
  from getLastCompletedRun_Some[OF q assms(5)] have m: "most_recent_completed d name q" .
  have "q = r"
  proof (rule ccontr)
    assume "q \<noteq> r"
    with m assms(4) have "ended_before (t_endTime q) (t_endTime r)"
      by (simp add: most_recent_completed_def)
    moreover from m assms(1-3) have "\<not> ended_before (t_endTime q) (t_endTime r)"
      by (simp add: most_recent_completed_def)
    ultimately show False by simp
  qed
  with q show ?thesis by simp
qed

lemma map_of_set_param: "map_of (set_param k v ps) k = Some v"
proof (cases "k \<in> set (map fst ps)")
  case True
  then show ?thesis
    by (induction ps) (auto simp: set_param_def)
next
  case False
  then show ?thesis
    by (simp add: set_param_def map_add_def map_of_eq_None_iff[THEN iffD2])
qed

text \<open>Since 1967-10-29T08:00:00Z the conversion subtracts seven hours.\<close>

lemma convertUtcToArizonaTime_fixed:
  "- 68659200000 \<le> t \<Longrightarrow> convertUtcToArizonaTime t = (t - 7 * 60 * 60 * 1000) div 1000 * 1000"
  by (simp add: convertUtcToArizonaTime_def america_phoenix_def)

lemma default_lastChanged:
  "toISOString (convertUtcToArizonaTime defaultTime) = ''1999-12-31T17:00:00.000Z''"
  by (simp add: convertUtcToArizonaTime_fixed defaultTime_def calendar_eval)

lemma toISOString_run_A1: "toISOString 1714478460000 = ''2024-04-30T12:01:00.000Z''"
  by (simp add: calendar_eval)

lemma toISOString_run_A2: "toISOString 1714564860000 = ''2024-05-01T12:01:00.000Z''"
  by (simp add: calendar_eval)

lemma getLastCompletedRun_history: "getLastCompletedRun history_db ''A'' = Some run_A2"
  by (simp add: getLastCompletedRun_def history_db_def run_A2_def run_A1_def
      toISOString_run_A1 toISOString_run_A2)

lemma lastChanged_history:
  "toISOString ((1714564800123 - 10 * 60 * 1000 - 7 * 60 * 60 * 1000) div 1000 * 1000) =
     ''2024-05-01T04:50:00.000Z''"
  by (simp add: calendar_eval)

text \<open>The steps of \<open>createTask\<close> that compute the parameter.\<close>

lemma createTask_Inr_iff:
  "createTask modules d taskConfig tid = Inr (task, ps) \<Longrightarrow>
     calculatedParams d taskConfig = Inr ps \<and> taskParams task = ps"
  unfolding createTask_def
  by (cases "calculatedParams d taskConfig"; cases "modules (tc_filePath taskConfig)")
     (auto simp: new_task_def)

lemma calculatedParams_computed:
  "map_of (tc_params taskConfig) ''lastChanged'' = None \<Longrightarrow>
   calculatedParams d taskConfig = Inr ps \<Longrightarrow>
     \<exists>v. lastChanged d (tc_name taskConfig) = Inr v \<and> map_of ps ''lastChanged'' = Some (JStr v)"
  unfolding calculatedParams_def
  by (cases "lastChanged d (tc_name taskConfig)") (auto simp: map_of_set_param)

lemma lastChanged_None:
  "getLastCompletedRun d name = None \<Longrightarrow> lastChanged d name = Inr ''1999-12-31T17:00:00.000Z''"
  by (simp add: lastChanged_def default_lastChanged)

lemma lastChanged_no_start:
  "getLastCompletedRun d name = Some r \<Longrightarrow> t_startTime r = None \<Longrightarrow>
     lastChanged d name = Inr ''1999-12-31T17:00:00.000Z''"
  by (simp add: lastChanged_def default_lastChanged)

lemma lastChanged_start:
  assumes "getLastCompletedRun d name = Some r" "t_startTime r = Some T"
    and "- 68659200000 \<le> T - 10 * 60 * 1000" "lastChanged d name = Inr v"
  shows "v = toISOString ((T - 10 * 60 * 1000 - 7 * 60 * 60 * 1000) div 1000 * 1000)"
proof -
  from assms(1,2,4) have "v = toISOString (convertUtcToArizonaTime (T - 10 * 60 * 1000))"
    unfolding lastChanged_def by (simp split: if_splits)
  then show ?thesis unfolding convertUtcToArizonaTime_fixed[OF assms(3)] .
qed

lemma default_text:
  "''1999-12-31T17:00:00.000Z'' = toISOString ((946684800000 - 7 * 60 * 60 * 1000) div 1000 * 1000)"
  by (simp add: calendar_eval)

text \<open>The two example task creations.\<close>

lemma toISOString_history: "toISOString 1714539000000 = ''2024-05-01T04:50:00.000Z''"
  by (simp add: calendar_eval)

lemma lastChanged_history_db: "lastChanged history_db ''A'' = Inr ''2024-05-01T04:50:00.000Z''"
  by (simp add: lastChanged_def getLastCompletedRun_history run_A2_def run_A1_def
      valid_date_value_def convertUtcToArizonaTime_def america_phoenix_def toISOString_history)

lemma lastChanged_empty_db: "lastChanged empty_db ''A'' = Inr ''1999-12-31T17:00:00.000Z''"
  by (rule lastChanged_None) (simp add: getLastCompletedRun_None empty_db_def)

lemma createTask_history:
  "createTask returning_modules history_db task_A ''t3'' =
     Inr (new_task ''A'' ''t3''
            [(''testParam'', JStr ''hello world''), (''lastChanged'', JStr ''2024-05-01T04:50:00.000Z'')]
            ([], Returns),
          [(''testParam'', JStr ''hello world''), (''lastChanged'', JStr ''2024-05-01T04:50:00.000Z'')])"
  by (simp add: createTask_def calculatedParams_def returning_modules_def task_A_def
      lastChanged_history_db set_param_def)

lemma createTask_empty:
  "createTask returning_modules empty_db task_A ''t3'' =
     Inr (new_task ''A'' ''t3''
            [(''testParam'', JStr ''hello world''), (''lastChanged'', JStr ''1999-12-31T17:00:00.000Z'')]
            ([], Returns),
          [(''testParam'', JStr ''hello world''), (''lastChanged'', JStr ''1999-12-31T17:00:00.000Z'')])"
  by (simp add: createTask_def calculatedParams_def returning_modules_def task_A_def
      lastChanged_empty_db set_param_def)

section \<open>Claim C3: the duplicate group guard\<close>



section \<open>Claim C5: terminal states of the lifecycle object\<close>

text \<open>
  Claim C5, as stated, fails: \<open>finished_task\<close> is in the terminal status \<open>completed\<close>,
  and a later \<open>skip\<close> on it changes its status to \<open>skipped\<close>.
\<close>

theorem C5_terminal_status_overwritten:
  "status finished_task = COMPLETED \<and>
   status (fst (skip ''late'' (finished_task, idle_scheduler))) = SKIPPED"
  by (simp add: finished_task_def status_start new_task_def)

text \<open>
  Claim C5, amended: the object has no guard on its status. Whatever the status was
  (terminal or not), \<open>setStatus s\<close> leaves it at \<open>s\<close>, \<open>setError\<close> (reportFailure) at
  \<open>error\<close>, \<open>skip\<close> at \<open>skipped\<close>, and \<open>start\<close> at \<open>completed\<close> when the hook returns
  and at \<open>error\<close> when it throws; only \<open>updateProgress\<close> and \<open>setSummary\<close> never
  change the status.
\<close>

theorem C5_status_after_operation:
  "status (fst (setStatus s tw)) = s \<and>
   status (fst (setError e tw)) = ERROR \<and>
   status (fst (skip r tw)) = SKIPPED \<and>
   status (fst (fst (start tw))) =
     (case snd (execute (fst tw)) of Returns \<Rightarrow> COMPLETED | Throws m \<Rightarrow> ERROR) \<and>
   status (fst (updateProgress m p tw)) = status (fst tw) \<and>
   status (fst (setSummary x tw)) = status (fst tw)"
  by (simp add: status_start)

section \<open>Claim C7: the computed lastChanged parameter\<close>

text \<open>
  Claim C7: let the configured parameters have no \<open>lastChanged\<close> key, let
  \<open>createTask\<close> succeed, and let the end times stored in the task table be instants of
  the years 0000 to 9999. The task is constructed with the computed parameters. When the
  store has no completed run of the task's name, their \<open>lastChanged\<close> is
  \<open>1999-12-31T17:00:00.000Z\<close>, the ISO text of 2000-01-01T00:00:00.000Z moved back
  seven hours. When it has one, \<open>getLastCompletedRun\<close> returns a completed run of that
  name than which none ended at a later instant; when that run started at \<open>T\<close>, with
  \<open>T\<close> minus ten minutes not before 1967-10-29T08:00:00Z (since when Phoenix is seven
  hours behind UTC throughout) and its Phoenix wall-clock year not after 9999,
  \<open>lastChanged\<close> is the ISO text of \<open>T\<close> minus ten minutes minus seven hours, cut to
  the second; when that run has no start time, \<open>lastChanged\<close> is the default. A
  completed run of the name that ended after every other one is the run returned.
\<close>

theorem C7_computed_lastChanged:
  assumes "map_of (tc_params taskConfig) ''lastChanged'' = None"
    and "createTask modules d taskConfig tid = Inr (task, ps)"
    and "\<forall>r \<in> set (tasks d). \<forall>e. t_endTime r = Some e \<longrightarrow> four_digit_year e"
  shows "taskParams task = ps \<and>
    ((\<forall>r \<in> set (tasks d). \<not> (t_taskName r = tc_name taskConfig \<and> t_status r = ''completed'')) \<longrightarrow>
       map_of ps ''lastChanged'' = Some (JStr ''1999-12-31T17:00:00.000Z'')) \<and>
    ''1999-12-31T17:00:00.000Z'' = toISOString ((946684800000 - 7 * 60 * 60 * 1000) div 1000 * 1000) \<and>
    ((\<exists>r \<in> set (tasks d). t_taskName r = tc_name taskConfig \<and> t_status r = ''completed'') \<longrightarrow>
       (\<exists>r. getLastCompletedRun d (tc_name taskConfig) = Some r \<and>
            most_recent_completed d (tc_name taskConfig) r \<and>
            (t_startTime r = None \<longrightarrow>
               map_of ps ''lastChanged'' = Some (JStr ''1999-12-31T17:00:00.000Z'')) \<and>
            (\<forall>T. t_startTime r = Some T \<and> - 68659200000 \<le> T - 10 * 60 * 1000 \<and>
                 T - 10 * 60 * 1000 - 7 * 60 * 60 * 1000 < 253402300800000 \<longrightarrow>
               map_of ps ''lastChanged'' =
                 Some (JStr (toISOString ((T - 10 * 60 * 1000 - 7 * 60 * 60 * 1000) div 1000 * 1000)))))) \<and>
    (\<forall>r \<in> set (tasks d). t_taskName r = tc_name taskConfig \<and> t_status r = ''completed'' \<and>
         (\<forall>r' \<in> set (tasks d). r' \<noteq> r \<and> t_taskName r' = tc_name taskConfig \<and>
              t_status r' = ''completed'' \<longrightarrow> ended_before (t_endTime r') (t_endTime r)) \<longrightarrow>
       getLastCompletedRun d (tc_name taskConfig) = Some r)"
proof (intro conjI impI ballI)
  let ?name = "tc_name taskConfig"
  from createTask_Inr_iff[OF assms(2)]
  have cp: "calculatedParams d taskConfig = Inr ps" and tp: "taskParams task = ps" by simp_all
  from calculatedParams_computed[OF assms(1) cp] obtain v where v: "lastChanged d ?name = Inr v"
    and lc: "map_of ps ''lastChanged'' = Some (JStr v)" by blast
  show "taskParams task = ps" by (rule tp)
  show "''1999-12-31T17:00:00.000Z'' = toISOString ((946684800000 - 7 * 60 * 60 * 1000) div 1000 * 1000)"
    by (rule default_text)
  {
    assume "\<forall>r \<in> set (tasks d). \<not> (t_taskName r = ?name \<and> t_status r = ''completed'')"
    then have "getLastCompletedRun d ?name = None" by (simp add: getLastCompletedRun_None)
    from lastChanged_None[OF this] v lc
    show "map_of ps ''lastChanged'' = Some (JStr ''1999-12-31T17:00:00.000Z'')" by simp
  }
  {
    assume "\<exists>r \<in> set (tasks d). t_taskName r = ?name \<and> t_status r = ''completed''"
    with getLastCompletedRun_None[of d ?name]
    obtain r where r: "getLastCompletedRun d ?name = Some r" by blast
    have m: "most_recent_completed d ?name r"
      by (rule getLastCompletedRun_Some[OF r assms(3)])
    have n: "t_startTime r = None \<longrightarrow> map_of ps ''lastChanged'' = Some (JStr ''1999-12-31T17:00:00.000Z'')"
      using lastChanged_no_start[OF r] v lc by simp
    have s: "\<forall>T. t_startTime r = Some T \<and> - 68659200000 \<le> T - 10 * 60 * 1000 \<and>
                 T - 10 * 60 * 1000 - 7 * 60 * 60 * 1000 < 253402300800000 \<longrightarrow>
               map_of ps ''lastChanged'' =
                 Some (JStr (toISOString ((T - 10 * 60 * 1000 - 7 * 60 * 60 * 1000) div 1000 * 1000)))"
    proof (intro allI impI)
      fix T
      assume a: "t_startTime r = Some T \<and> - 68659200000 \<le> T - 10 * 60 * 1000 \<and>
                 T - 10 * 60 * 1000 - 7 * 60 * 60 * 1000 < 253402300800000"
      then have a1: "t_startTime r = Some T" and a2: "- 68659200000 \<le> T - 10 * 60 * 1000"
        by blast+
      from lastChanged_start[OF r a1 a2 v] lc
      show "map_of ps ''lastChanged'' =
          Some (JStr (toISOString ((T - 10 * 60 * 1000 - 7 * 60 * 60 * 1000) div 1000 * 1000)))"
        by (simp only:)
    qed
    from r m n s
    show "\<exists>r. getLastCompletedRun d ?name = Some r \<and>
            most_recent_completed d ?name r \<and>
            (t_startTime r = None \<longrightarrow>
               map_of ps ''lastChanged'' = Some (JStr ''1999-12-31T17:00:00.000Z'')) \<and>
            (\<forall>T. t_startTime r = Some T \<and> - 68659200000 \<le> T - 10 * 60 * 1000 \<and>
                 T - 10 * 60 * 1000 - 7 * 60 * 60 * 1000 < 253402300800000 \<longrightarrow>
               map_of ps ''lastChanged'' =
                 Some (JStr (toISOString ((T - 10 * 60 * 1000 - 7 * 60 * 60 * 1000) div 1000 * 1000))))"
      by (intro exI[of _ r] conjI)
  }
  {
    fix r
    assume rd: "r \<in> set (tasks d)"
      and h: "t_taskName r = ?name \<and> t_status r = ''completed'' \<and>
         (\<forall>r' \<in> set (tasks d). r' \<noteq> r \<and> t_taskName r' = ?name \<and>
              t_status r' = ''completed'' \<longrightarrow> ended_before (t_endTime r') (t_endTime r))"
    from h have h1: "t_taskName r = ?name" and h2: "t_status r = ''completed''"
      and h3: "\<forall>r' \<in> set (tasks d). r' \<noteq> r \<and> t_taskName r' = ?name \<and>
              t_status r' = ''completed'' \<longrightarrow> ended_before (t_endTime r') (t_endTime r)"
      by blast+
    show "getLastCompletedRun d ?name = Some r"
      by (rule getLastCompletedRun_latest[OF rd h1 h2 h3 assms(3)])
  }
qed

text \<open>
  Witness for C7: the store holds two completed runs of \<open>A\<close>, the earlier one first. The
  later one started at 2024-05-01T12:00:00.123Z, and the parameter is
  \<open>2024-05-01T04:50:00.000Z\<close>.
\<close>

theorem C7_computed_lastChanged_witness:
  "map_of (tc_params task_A) ''lastChanged'' = None \<and>
   createTask returning_modules history_db task_A ''t3'' =
     Inr (new_task ''A'' ''t3''
            [(''testParam'', JStr ''hello world''), (''lastChanged'', JStr ''2024-05-01T04:50:00.000Z'')]
            ([], Returns),
          [(''testParam'', JStr ''hello world''), (''lastChanged'', JStr ''2024-05-01T04:50:00.000Z'')]) \<and>
   tasks history_db = [run_A1, run_A2] \<and>
   t_endTime run_A1 = Some 1714478460000 \<and> four_digit_year 1714478460000 \<and>
   t_endTime run_A2 = Some 1714564860000 \<and> four_digit_year 1714564860000 \<and>
   t_taskName run_A1 = tc_name task_A \<and> t_status run_A1 = ''completed'' \<and>
   t_taskName run_A2 = tc_name task_A \<and> t_status run_A2 = ''completed'' \<and>
   run_A1 \<noteq> run_A2 \<and> ended_before (t_endTime run_A1) (t_endTime run_A2) \<and>
   t_startTime run_A2 = Some 1714564800123 \<and>
   - 68659200000 \<le> (1714564800123::int) - 10 * 60 * 1000 \<and>
   (1714564800123::int) - 10 * 60 * 1000 - 7 * 60 * 60 * 1000 < 253402300800000 \<and>
   getLastCompletedRun history_db (tc_name task_A) = Some run_A2 \<and>
   most_recent_completed history_db (tc_name task_A) run_A2 \<and>
   toISOString ((1714564800123 - 10 * 60 * 1000 - 7 * 60 * 60 * 1000) div 1000 * 1000) =
     ''2024-05-01T04:50:00.000Z''"
proof -
  let ?ps = "[(''testParam'', JStr ''hello world''), (''lastChanged'', JStr ''2024-05-01T04:50:00.000Z'')]"
  have k: "map_of (tc_params task_A) ''lastChanged'' = None" by (simp add: task_A_def)
  have t: "tasks history_db = [run_A1, run_A2]" by (simp add: history_db_def)
  have e: "t_endTime run_A1 = Some 1714478460000" "t_endTime run_A2 = Some 1714564860000"
    "t_startTime run_A2 = Some 1714564800123"
    by (simp_all add: run_A1_def run_A2_def)
  have f: "four_digit_year 1714478460000" "four_digit_year 1714564860000"
    by (simp_all add: four_digit_year_def)
  have c: "t_taskName run_A1 = tc_name task_A" "t_status run_A1 = ''completed''"
    "t_taskName run_A2 = tc_name task_A" "t_status run_A2 = ''completed''" "run_A1 \<noteq> run_A2"
    by (simp_all add: run_A1_def run_A2_def task_A_def)
  have b: "ended_before (t_endTime run_A1) (t_endTime run_A2)" by (simp add: e)
  have r: "\<forall>r \<in> set (tasks history_db). \<forall>e. t_endTime r = Some e \<longrightarrow> four_digit_year e"
    using e f by (simp add: t)
  have l: "- 68659200000 \<le> (1714564800123::int) - 10 * 60 * 1000"
    "(1714564800123::int) - 10 * 60 * 1000 - 7 * 60 * 60 * 1000 < 253402300800000" by simp_all
  note h = C7_computed_lastChanged[OF k createTask_history r]
  from h have u: "\<forall>r \<in> set (tasks history_db).
      t_taskName r = tc_name task_A \<and> t_status r = ''completed'' \<and>
      (\<forall>r' \<in> set (tasks history_db). r' \<noteq> r \<and> t_taskName r' = tc_name task_A \<and>
         t_status r' = ''completed'' \<longrightarrow> ended_before (t_endTime r') (t_endTime r)) \<longrightarrow>
      getLastCompletedRun history_db (tc_name task_A) = Some r"
    by blast
  have g: "getLastCompletedRun history_db (tc_name task_A) = Some run_A2"
    using u c b by (simp add: t)
  from h c have "\<exists>r. getLastCompletedRun history_db (tc_name task_A) = Some r \<and>
      most_recent_completed history_db (tc_name task_A) r \<and>
      (\<forall>T. t_startTime r = Some T \<and> - 68659200000 \<le> T - 10 * 60 * 1000 \<and>
           T - 10 * 60 * 1000 - 7 * 60 * 60 * 1000 < 253402300800000 \<longrightarrow>
         map_of ?ps ''lastChanged'' =
           Some (JStr (toISOString ((T - 10 * 60 * 1000 - 7 * 60 * 60 * 1000) div 1000 * 1000))))"
    by (simp add: t) blast
  with g have m: "most_recent_completed history_db (tc_name task_A) run_A2"
    and s: "\<forall>T. t_startTime run_A2 = Some T \<and> - 68659200000 \<le> T - 10 * 60 * 1000 \<and>
           T - 10 * 60 * 1000 - 7 * 60 * 60 * 1000 < 253402300800000 \<longrightarrow>
         map_of ?ps ''lastChanged'' =
           Some (JStr (toISOString ((T - 10 * 60 * 1000 - 7 * 60 * 60 * 1000) div 1000 * 1000)))"
    by auto
  from s e(3) l have "map_of ?ps ''lastChanged'' =
      Some (JStr (toISOString ((1714564800123 - 10 * 60 * 1000 - 7 * 60 * 60 * 1000) div 1000 * 1000)))"
    by blast
  then have x: "toISOString ((1714564800123 - 10 * 60 * 1000 - 7 * 60 * 60 * 1000) div 1000 * 1000) =
     ''2024-05-01T04:50:00.000Z''"
    by simp
  from k createTask_history t e f c b l g m x show ?thesis by (intro conjI)
qed

section \<open>Claim C8: startup recovery\<close>

text \<open>
  Claim C8: after the recovery pass of \<open>loadConfiguration\<close>, or of \<open>start()\<close> on a
  scheduler that is not running yet, both tables have the rows they had, in the same
  places; every group row that was \<open>in_progress\<close> and every task row that was
  \<open>created\<close> or \<open>in_progress\<close> is now \<open>error\<close>, with the message
  \<open>Marked as error: Application shutdown while in progress\<close> and the current time as
  its end time, its other columns untouched; and every row that was \<open>completed\<close>,
  \<open>error\<close> or \<open>skipped\<close> is exactly as it was.
\<close>

theorem C8_startup_recovery:
  assumes "w' = loadConfiguration w \<or> (\<not> isRunning w \<and> w' = scheduler_start w)"
  shows "length (taskGroups (db w')) = length (taskGroups (db w)) \<and>
         length (tasks (db w')) = length (tasks (db w)) \<and>
         (\<forall>i < length (taskGroups (db w)).
            (tg_status (taskGroups (db w) ! i) = ''in_progress'' \<longrightarrow>
               taskGroups (db w') ! i = (taskGroups (db w) ! i)\<lparr>tg_status := ''error'',
                 tg_message := Some ''Marked as error: Application shutdown while in progress'',
                 tg_endTime := Some (clock w)\<rparr>) \<and>
            (terminal (tg_status (taskGroups (db w) ! i)) \<longrightarrow>
               taskGroups (db w') ! i = taskGroups (db w) ! i)) \<and>
         (\<forall>i < length (tasks (db w)).
            (t_status (tasks (db w) ! i) = ''created'' \<or> t_status (tasks (db w) ! i) = ''in_progress'' \<longrightarrow>
               tasks (db w') ! i = (tasks (db w) ! i)\<lparr>t_status := ''error'',
                 t_message := Some ''Marked as error: Application shutdown while in progress'',
                 t_endTime := Some (clock w)\<rparr>) \<and>
            (terminal (t_status (tasks (db w) ! i)) \<longrightarrow>
               tasks (db w') ! i = tasks (db w) ! i))"
proof -
  from assms have d: "db w' = markIncompleteTasksAsErrors (clock w) (db w)"
    by (auto simp: loadConfiguration_def scheduler_start_def)
  show ?thesis
    unfolding d
    by (auto simp: markIncompleteTasksAsErrors_def terminal_def)
qed

text \<open>Witness for C8: a store left behind by a crash.\<close>

theorem C8_startup_recovery_witness:
  "\<not> isRunning crashed \<and>
   tg_status (taskGroups (db crashed) ! 0) = ''in_progress'' \<and>
   tg_status (taskGroups (db (scheduler_start crashed)) ! 0) = ''error'' \<and>
   terminal (tg_status (taskGroups (db crashed) ! 1)) \<and>
   taskGroups (db (scheduler_start crashed)) ! 1 = taskGroups (db crashed) ! 1 \<and>
   t_status (tasks (db crashed) ! 1) = ''created'' \<and>
   t_status (tasks (db (scheduler_start crashed)) ! 1) = ''error'' \<and>
   terminal (t_status (tasks (db crashed) ! 2)) \<and>
   tasks (db (scheduler_start crashed)) ! 2 = tasks (db crashed) ! 2"
proof -
  have h: "scheduler_start crashed = loadConfiguration crashed \<or>
      (\<not> isRunning crashed \<and> scheduler_start crashed = scheduler_start crashed)"
    by (simp add: crashed_def)
  have n: "\<not> isRunning crashed" by (simp add: crashed_def)
  have s: "tg_status (taskGroups (db crashed) ! 0) = ''in_progress''"
    "terminal (tg_status (taskGroups (db crashed) ! 1))"
    "t_status (tasks (db crashed) ! 1) = ''created''"
    "terminal (t_status (tasks (db crashed) ! 2))"
    by (simp_all add: crashed_def noon_group_def noon_row_def terminal_def)
  have l: "0 < length (taskGroups (db crashed))" "1 < length (taskGroups (db crashed))"
    "1 < length (tasks (db crashed))" "2 < length (tasks (db crashed))"
    by (simp_all add: crashed_def)
  note t = C8_startup_recovery[OF h]
  from t l(1) s(1) have 1: "tg_status (taskGroups (db (scheduler_start crashed)) ! 0) = ''error''"
    by simp
  from t l(2) s(2) have 2: "taskGroups (db (scheduler_start crashed)) ! 1 = taskGroups (db crashed) ! 1"
    by blast
  from t l(3) s(3) have 3: "t_status (tasks (db (scheduler_start crashed)) ! 1) = ''error''"
    by simp
  from t l(4) s(4) have 4: "tasks (db (scheduler_start crashed)) ! 2 = tasks (db crashed) ! 2"
    by blast
  from n s 1 2 3 4 show ?thesis by blast
qed

section \<open>Claim C9: cleanup\<close>

text \<open>
  Claim C9 at a concrete input. The clock reads 2024-01-31T00:00:00.000Z and
  \<open>cleanup 30\<close> is called, so the cut-off is 2024-01-01T00:00:00.000Z. The task row
  and the group row of the store were created twelve hours after the cut-off, yet both are
  deleted, and the call returns normally: the stored text \<open>2024-01-01 12:00:00\<close> sorts below the cut-off's text
  \<open>2024-01-01T00:00:00.000Z\<close>, a space being smaller than \<open>T\<close>.
\<close>

theorem C9_cleanup_deletes_younger_rows:
  "clock january_31 - 30 * 24 * 60 * 60 * 1000 < t_createdAt noon_row * 1000 \<and>
   clock january_31 - 30 * 24 * 60 * 60 * 1000 < tg_createdAt noon_group * 1000 \<and>
   CURRENT_TIMESTAMP (t_createdAt noon_row) = ''2024-01-01 12:00:00'' \<and>
   toISOString (clock january_31 - 30 * 24 * 60 * 60 * 1000) = ''2024-01-01T00:00:00.000Z'' \<and>
   cleanup 30 january_31 = (january_31\<lparr>db := \<lparr> taskGroups = [], tasks = [] \<rparr>\<rparr>, None)"
  by (simp add: cleanup_def cleanupOldRecords_def valid_date_value_def january_31_def noon_row_def
      noon_group_def CURRENT_TIMESTAMP_noon toISOString_cutoff)

section \<open>Claim C10: inserting a task run cleans up first\<close>




end
